theory Spec2Isabelle
  imports Main "HOL-Library.Word"
begin

unbundle bit_operations_syntax

section \<open>JavaScript values used by the two serverless functions\<close>

text \<open>
  A JavaScript string is modelled by its UTF-8 bytes, an Isabelle \<open>string\<close>; this is
  what \<^verbatim>\<open>Buffer.from(str)\<close> and the HMAC \<^verbatim>\<open>update(str)\<close> see. An optional request
  parameter or environment variable is a \<open>string option\<close>, \<open>None\<close> standing for
  \<^verbatim>\<open>undefined\<close>. A value is truthy when it is a non-empty string.
\<close>

definition truthy :: "string option \<Rightarrow> bool" where
  "truthy v = (case v of None \<Rightarrow> False | Some s \<Rightarrow> s \<noteq> [])"

text \<open>\<^verbatim>\<open>v || d\<close> on an optional string.\<close>

definition or_else :: "string option \<Rightarrow> string \<Rightarrow> string" where
  "or_else v d = (case v of None \<Rightarrow> d | Some s \<Rightarrow> if s = [] then d else s)"

text \<open>
  \<^verbatim>\<open>s.replace(/[...]/g, r)\<close> for a character class: every character of the class is
  replaced by the string \<open>r\<close> (the empty string deletes it).
\<close>

definition replace_all :: "(char \<Rightarrow> bool) \<Rightarrow> string \<Rightarrow> string \<Rightarrow> string" where
  "replace_all p r s = concat (map (\<lambda>c. if p c then r else [c]) s)"

text \<open>\<^verbatim>\<open>s.split(c)\<close> for a one-character separator: the empty string gives one empty segment.\<close>

fun split_on :: "char \<Rightarrow> string \<Rightarrow> string list" where
  "split_on c [] = [[]]"
| "split_on c (x # xs) =
     (if x = c then [] # split_on c xs
      else (case split_on c xs of w # ws \<Rightarrow> (x # w) # ws | [] \<Rightarrow> [[x]]))"

definition digit_char :: "int \<Rightarrow> char" where
  "digit_char d = ''0123456789'' ! nat (d mod 10)"

text \<open>The \<open>w\<close> low decimal digits of \<open>n\<close>, zero padded.\<close>

fun pad :: "nat \<Rightarrow> int \<Rightarrow> string" where
  "pad 0 n = []"
| "pad (Suc w) n = pad w (n div 10) @ [digit_char n]"

subsection \<open>\<^verbatim>\<open>Date.prototype.toISOString\<close>\<close>

text \<open>
  The built-in rendering of a time value (milliseconds since the epoch, UTC) as
  \<^verbatim>\<open>YYYY-MM-DDTHH:mm:ss.sssZ\<close>, after ECMA-262 (Date Time String Format): years outside
  0..9999 are written with a sign and six digits. The day number is turned into a
  proleptic Gregorian date by the usual era computation (400-year cycles of 146097 days,
  the year starting in March). The clock never reads a value outside the range of
  \<^verbatim>\<open>Date\<close>, for which the built-in would throw.
\<close>

definition civil_from_days :: "int \<Rightarrow> int \<times> int \<times> int" where
  "civil_from_days z0 =
     (let z = z0 + 719468;
          era = z div 146097;
          doe = z - era * 146097;
          yoe = (doe - doe div 1460 + doe div 36524 - doe div 146096) div 365;
          doy = doe - (365 * yoe + yoe div 4 - yoe div 100);
          mp = (5 * doy + 2) div 153;
          d = doy - (153 * mp + 2) div 5 + 1;
          m = (if mp < 10 then mp + 3 else mp - 9);
          y = yoe + era * 400 + (if m \<le> 2 then 1 else 0)
      in (y, m, d))"

definition year_string :: "int \<Rightarrow> string" where
  "year_string y =
     (if 0 \<le> y \<and> y \<le> 9999 then pad 4 y
      else (if y < 0 then ''-'' else ''+'') @ pad 6 \<bar>y\<bar>)"

definition toISOString :: "int \<Rightarrow> string" where
  "toISOString t =
     (let day = t div 86400000;
          ms_in_day = t mod 86400000;
          (y, m, d) = civil_from_days day
      in year_string y @ ''-'' @ pad 2 m @ ''-'' @ pad 2 d @ ''T''
         @ pad 2 (ms_in_day div 3600000) @ '':''
         @ pad 2 (ms_in_day div 60000 mod 60) @ '':''
         @ pad 2 (ms_in_day div 1000 mod 60) @ ''.''
         @ pad 3 (ms_in_day mod 1000) @ ''Z'')"

section \<open>The recording function (api/recording.js)\<close>

text \<open>The environment variables the functions read; \<open>None\<close> is an unset variable.\<close>

record process_env =
  LIVEKIT_API_KEY :: "string option"
  LIVEKIT_API_SECRET :: "string option"
  LIVEKIT_URL :: "string option"
  AZURE_ACCOUNT_NAME :: "string option"
  AZURE_ACCOUNT_KEY :: "string option"
  AZURE_CONTAINER_NAME :: "string option"

text \<open>An entry of the map \<^verbatim>\<open>activeRecordings\<close>.\<close>

record recording =
  egressId :: string
  startedBy :: string
  startedAt :: string
  filepath :: string

text \<open>
  The two requests sent to the egress service through \<^verbatim>\<open>EgressClient\<close>. The file output
  of a start request carries the path and the Azure credentials; the options of the
  composite (\<^verbatim>\<open>layout: 'single-speaker'\<close>, \<^verbatim>\<open>audioOnly: true\<close>, the encoding preset) are
  constants of the source.
\<close>

record encoded_file_output =
  fileType :: string
  out_filepath :: string
  accountName :: "string option"
  accountKey :: "string option"
  containerName :: "string option"

datatype egress_request =
    StartRoomCompositeEgress string encoded_file_output
  | StopEgress string

text \<open>A thrown exception, with its message.\<close>

datatype exn = Error string

text \<open>
  An argument of a call of \<^verbatim>\<open>console.log\<close> or \<^verbatim>\<open>console.error\<close>: a string, or the
  exception a \<^verbatim>\<open>catch\<close> hands over as it is.
\<close>

datatype logged = Text string | Thrown exn

text \<open>
  The state of the process: the map from room name to recording, the requests sent to
  the egress service so far (the newest last), and the calls of the console so far, each
  the list of its arguments.
\<close>

record tracker =
  activeRecordings :: "string \<rightharpoonup> recording"
  egress_requests :: "egress_request list"
  console :: "logged list list"

text \<open>The JSON bodies the function answers with, one constructor per object shape.\<close>

datatype body =
    NoBody
  | ErrorBody string
  | ConflictBody string string string
  | StartedBody string string string
  | StoppedBody string "string option" string
  | StatusBody bool "(string \<times> string \<times> string) option"
  | FailureBody string string
  | TokenBody string

record http_result =
  status :: nat
  body :: body

text \<open>
  What the surroundings give to one call: the two readings of the clock in
  \<^verbatim>\<open>startRecording\<close> (before and after the awaited call), and the outcome of the awaited
  call to the egress service: \<open>Inl msg\<close> is a rejected promise with that error message,
  \<open>Inr\<close> the resolved value (for a start, the \<^verbatim>\<open>egressId\<close> of the returned info).
\<close>

record ambient =
  clock_first :: int
  clock_second :: int
  start_outcome :: "string + string"
  stop_outcome :: "string + unit"

definition startRecording ::
  "process_env \<Rightarrow> ambient \<Rightarrow> string \<Rightarrow> string option \<Rightarrow> tracker
     \<Rightarrow> (exn + http_result) \<times> tracker" where
  "startRecording env amb rm ident st =
     (case activeRecordings st rm of
        Some existing \<Rightarrow>
          (Inr \<lparr>status = 409,
                body = ConflictBody ''Recording already in progress''
                         (startedBy existing) (egressId existing)\<rparr>, st)
      | None \<Rightarrow>
          (let timestamp = replace_all (\<lambda>c. c = CHR '':'' \<or> c = CHR ''.'') ''-''
                             (toISOString (clock_first amb));
               fp = ''recordings/'' @ rm @ ''/'' @ timestamp @ ''.ogg'';
               output = \<lparr>fileType = ''OGG'', out_filepath = fp,
                         accountName = AZURE_ACCOUNT_NAME env,
                         accountKey = AZURE_ACCOUNT_KEY env,
                         containerName = AZURE_CONTAINER_NAME env\<rparr>;
               st1 = st\<lparr>egress_requests :=
                          egress_requests st @ [StartRoomCompositeEgress rm output]\<rparr>
           in case start_outcome amb of
                Inl msg \<Rightarrow> (Inl (Error msg), st1)
              | Inr eid \<Rightarrow>
                  (Inr \<lparr>status = 200, body = StartedBody eid fp ''Recording started''\<rparr>,
                   st1\<lparr>activeRecordings := (activeRecordings st1)(rm \<mapsto>
                          \<lparr>egressId = eid, startedBy = or_else ident ''unknown'',
                           startedAt = toISOString (clock_second amb), filepath = fp\<rparr>),
                        console := console st1 @
                          [[Text (''Recording started for room: '' @ rm
                                  @ '', egressId: '' @ eid)]]\<rparr>)))"

definition stopRecording ::
  "ambient \<Rightarrow> string option \<Rightarrow> string option \<Rightarrow> tracker
     \<Rightarrow> (exn + http_result) \<times> tracker" where
  "stopRecording amb rm eid st =
     (let recordingInfo =
            (case rm of
               None \<Rightarrow> None
             | Some r \<Rightarrow> if r \<noteq> [] then activeRecordings st r else None);
          targetEgressId =
            (case recordingInfo of None \<Rightarrow> eid | Some info \<Rightarrow> Some (egressId info))
      in if \<not> truthy targetEgressId then
           (Inr \<lparr>status = 404,
                 body = ErrorBody ''No active recording found for this room''\<rparr>, st)
         else
           (let target = or_else targetEgressId [];
                st1 = st\<lparr>egress_requests := egress_requests st @ [StopEgress target]\<rparr>
            in case stop_outcome amb of
                 Inl msg \<Rightarrow> (Inl (Error msg), st1)
               | Inr _ \<Rightarrow>
                   (Inr \<lparr>status = 200,
                         body = StoppedBody target (map_option filepath recordingInfo)
                                  ''Recording stopped''\<rparr>,
                    st1\<lparr>activeRecordings :=
                           (if truthy rm then (activeRecordings st1)(or_else rm [] := None)
                            else activeRecordings st1),
                         console := console st1 @
                           [[Text (''Recording stopped for egressId: '' @ target)]]\<rparr>)))"

definition getRecordingStatus :: "string \<Rightarrow> tracker \<Rightarrow> http_result" where
  "getRecordingStatus rm st =
     (case activeRecordings st rm of
        None \<Rightarrow> \<lparr>status = 200, body = StatusBody False None\<rparr>
      | Some info \<Rightarrow>
          \<lparr>status = 200,
           body = StatusBody True (Some (egressId info, startedBy info, startedAt info))\<rparr>)"

text \<open>
  The exported handler. The request is the merge of query and body, with the four
  parameters the handler reads. An exception of a handler is caught, logged, and answered
  with 500 and the message of the exception.
\<close>

record request =
  req_method :: string
  req_action :: "string option"
  req_room :: "string option"
  req_egressId :: "string option"
  req_identity :: "string option"

definition respond :: "(exn + http_result) \<times> tracker \<Rightarrow> http_result \<times> tracker" where
  "respond r =
     (case r of
        (Inr res, st) \<Rightarrow> (res, st)
      | (Inl (Error msg), st) \<Rightarrow>
          (\<lparr>status = 500, body = FailureBody ''Recording operation failed'' msg\<rparr>,
           st\<lparr>console :=
                console st @ [[Text ''Recording error:'', Thrown (Error msg)]]\<rparr>))"

definition handler ::
  "process_env \<Rightarrow> ambient \<Rightarrow> request \<Rightarrow> tracker \<Rightarrow> http_result \<times> tracker" where
  "handler env amb req st =
     (if req_method req = ''OPTIONS'' then (\<lparr>status = 200, body = NoBody\<rparr>, st)
      else if \<not> truthy (LIVEKIT_API_KEY env) \<or> \<not> truthy (LIVEKIT_API_SECRET env) then
        (\<lparr>status = 500,
          body = ErrorBody ''Server not configured. Missing LiveKit credentials.''\<rparr>, st)
      else if \<not> truthy (AZURE_ACCOUNT_NAME env) \<or> \<not> truthy (AZURE_ACCOUNT_KEY env)
              \<or> \<not> truthy (AZURE_CONTAINER_NAME env) then
        (\<lparr>status = 500,
          body = ErrorBody
            ''Server not configured. Missing Azure Blob Storage credentials.''\<rparr>, st)
      else if req_action req = Some ''start'' then
        (if \<not> truthy (req_room req) then
           (\<lparr>status = 400, body = ErrorBody ''Missing room parameter''\<rparr>, st)
         else respond (startRecording env amb (or_else (req_room req) []) (req_identity req) st))
      else if req_action req = Some ''stop'' then
        (if \<not> truthy (req_room req) \<and> \<not> truthy (req_egressId req) then
           (\<lparr>status = 400, body = ErrorBody ''Missing room or egressId parameter''\<rparr>, st)
         else respond (stopRecording amb (req_room req) (req_egressId req) st))
      else if req_action req = Some ''status'' then
        (if \<not> truthy (req_room req) then
           (\<lparr>status = 400, body = ErrorBody ''Missing room parameter''\<rparr>, st)
         else (getRecordingStatus (or_else (req_room req) []) st, st))
      else
        (\<lparr>status = 400, body = ErrorBody ''Invalid action. Use: start, stop, or status''\<rparr>,
         st))"


section \<open>The token function (api/token.js)\<close>

subsection \<open>\<^verbatim>\<open>Buffer.from(str).toString('base64')\<close>\<close>

text \<open>
  Standard base64 (RFC 4648) of the bytes of a string: three bytes give four characters of
  the alphabet; a last group of one or two bytes gives two or three characters and is
  filled up with \<^verbatim>\<open>=\<close>.
\<close>

definition base64_alphabet :: string where
  "base64_alphabet = ''ABCDEFGHIJKLMNOPQRSTUVWXYZabcdefghijklmnopqrstuvwxyz0123456789+/''"

definition b64_char :: "nat \<Rightarrow> char" where
  "b64_char i = base64_alphabet ! i"

fun base64 :: "string \<Rightarrow> string" where
  "base64 [] = []"
| "base64 [a] =
     [b64_char (of_char a div 4), b64_char (of_char a mod 4 * 16), CHR ''='', CHR ''='']"
| "base64 [a, b] =
     [b64_char (of_char a div 4),
      b64_char (of_char a mod 4 * 16 + of_char b div 16),
      b64_char (of_char b mod 16 * 4), CHR ''='']"
| "base64 (a # b # c # rest) =
     [b64_char (of_char a div 4),
      b64_char (of_char a mod 4 * 16 + of_char b div 16),
      b64_char (of_char b mod 16 * 4 + of_char c div 64),
      b64_char (of_char c mod 64)] @ base64 rest"

text \<open>The three replacements both the encoder and the signature go through.\<close>

definition url_safe :: "string \<Rightarrow> string" where
  "url_safe s =
     replace_all (\<lambda>c. c = CHR ''='') []
       (replace_all (\<lambda>c. c = CHR ''/'') ''_''
          (replace_all (\<lambda>c. c = CHR ''+'') ''-'' s))"

definition base64UrlEncode :: "string \<Rightarrow> string" where
  "base64UrlEncode str = url_safe (base64 str)"

subsection \<open>\<^verbatim>\<open>JSON.stringify\<close>\<close>

text \<open>
  The values the function serialises: strings, integers, booleans and objects with their
  members in insertion order (no key of the source is an integer index, so that is the
  order of serialisation). A string is quoted as ECMA-262 QuoteJSONString does: the quote
  and the backslash are escaped, the control characters below 0x20 are written with their
  short escape or as \<^verbatim>\<open>\u00XX\<close>, and every other byte is kept. An integer is written
  in decimal (the integers here are far below 10^21, where the exponent form starts).
\<close>

datatype json =
    JString string
  | JNumber int
  | JBool bool
  | JObject "(string \<times> json) list"

definition hex_char :: "nat \<Rightarrow> char" where
  "hex_char d = ''0123456789abcdef'' ! (d mod 16)"

definition json_escape :: "char \<Rightarrow> string" where
  "json_escape c =
     (if c = CHR 0x22 then [CHR 0x5C, CHR 0x22]
      else if c = CHR 0x5C then [CHR 0x5C, CHR 0x5C]
      else if c = CHR 0x08 then [CHR 0x5C, CHR ''b'']
      else if c = CHR 0x09 then [CHR 0x5C, CHR ''t'']
      else if c = CHR 0x0A then [CHR 0x5C, CHR ''n'']
      else if c = CHR 0x0C then [CHR 0x5C, CHR ''f'']
      else if c = CHR 0x0D then [CHR 0x5C, CHR ''r'']
      else if (of_char c :: nat) < 0x20 then
        [CHR 0x5C, CHR ''u'', CHR ''0'', CHR ''0'',
         hex_char (of_char c div 16), hex_char (of_char c)]
      else [c])"

definition quote_json :: "string \<Rightarrow> string" where
  "quote_json s = [CHR 0x22] @ concat (map json_escape s) @ [CHR 0x22]"

function decimal :: "int \<Rightarrow> string" where
  "decimal n = (if n < 10 then [digit_char n] else decimal (n div 10) @ [digit_char n])"
  by pat_completeness auto
termination
  by (relation "measure nat") auto

declare decimal.simps [simp del]

definition number_to_string :: "int \<Rightarrow> string" where
  "number_to_string n = (if n < 0 then ''-'' @ decimal (- n) else decimal n)"

fun join_with :: "string \<Rightarrow> string list \<Rightarrow> string" where
  "join_with sep [] = []"
| "join_with sep [x] = x"
| "join_with sep (x # y # ys) = x @ sep @ join_with sep (y # ys)"

fun stringify :: "json \<Rightarrow> string" where
  "stringify (JString s) = quote_json s"
| "stringify (JNumber n) = number_to_string n"
| "stringify (JBool b) = (if b then ''true'' else ''false'')"
| "stringify (JObject members) =
     ''{'' @ join_with '','' (map (\<lambda>(k, v). quote_json k @ '':'' @ stringify v) members)
     @ ''}''"

subsection \<open>\<^verbatim>\<open>crypto.createHmac('sha256', key)\<close>\<close>

text \<open>
  SHA-256 after FIPS 180-4 on 32-bit words, and HMAC after RFC 2104 with the block size
  of 64 bytes: a key longer than a block is hashed first, and the key is then filled up
  to a block with zero bytes. A byte is a \<open>char\<close>.
\<close>

definition K256 :: "32 word list" where
  "K256 =
     [0x428A2F98, 0x71374491, 0xB5C0FBCF, 0xE9B5DBA5,
      0x3956C25B, 0x59F111F1, 0x923F82A4, 0xAB1C5ED5,
      0xD807AA98, 0x12835B01, 0x243185BE, 0x550C7DC3,
      0x72BE5D74, 0x80DEB1FE, 0x9BDC06A7, 0xC19BF174,
      0xE49B69C1, 0xEFBE4786, 0x0FC19DC6, 0x240CA1CC,
      0x2DE92C6F, 0x4A7484AA, 0x5CB0A9DC, 0x76F988DA,
      0x983E5152, 0xA831C66D, 0xB00327C8, 0xBF597FC7,
      0xC6E00BF3, 0xD5A79147, 0x06CA6351, 0x14292967,
      0x27B70A85, 0x2E1B2138, 0x4D2C6DFC, 0x53380D13,
      0x650A7354, 0x766A0ABB, 0x81C2C92E, 0x92722C85,
      0xA2BFE8A1, 0xA81A664B, 0xC24B8B70, 0xC76C51A3,
      0xD192E819, 0xD6990624, 0xF40E3585, 0x106AA070,
      0x19A4C116, 0x1E376C08, 0x2748774C, 0x34B0BCB5,
      0x391C0CB3, 0x4ED8AA4A, 0x5B9CCA4F, 0x682E6FF3,
      0x748F82EE, 0x78A5636F, 0x84C87814, 0x8CC70208,
      0x90BEFFFA, 0xA4506CEB, 0xBEF9A3F7, 0xC67178F2]"

definition H256 :: "32 word list" where
  "H256 = [0x6A09E667, 0xBB67AE85, 0x3C6EF372, 0xA54FF53A,
           0x510E527F, 0x9B05688C, 0x1F83D9AB, 0x5BE0CD19]"

definition Ch :: "32 word \<Rightarrow> 32 word \<Rightarrow> 32 word \<Rightarrow> 32 word" where
  "Ch x y z = (x AND y) XOR (NOT x AND z)"

definition Maj :: "32 word \<Rightarrow> 32 word \<Rightarrow> 32 word \<Rightarrow> 32 word" where
  "Maj x y z = (x AND y) XOR (x AND z) XOR (y AND z)"

definition Sigma0 :: "32 word \<Rightarrow> 32 word" where
  "Sigma0 x = word_rotr 2 x XOR word_rotr 13 x XOR word_rotr 22 x"

definition Sigma1 :: "32 word \<Rightarrow> 32 word" where
  "Sigma1 x = word_rotr 6 x XOR word_rotr 11 x XOR word_rotr 25 x"

definition sigma0 :: "32 word \<Rightarrow> 32 word" where
  "sigma0 x = word_rotr 7 x XOR word_rotr 18 x XOR drop_bit 3 x"

definition sigma1 :: "32 word \<Rightarrow> 32 word" where
  "sigma1 x = word_rotr 17 x XOR word_rotr 19 x XOR drop_bit 10 x"

text \<open>The bytes of a word and of the 64-bit length field, the most significant first.\<close>

definition byte_at :: "nat \<Rightarrow> 'a::len word \<Rightarrow> char" where
  "byte_at k w = char_of (unat (drop_bit (8 * k) w AND 0xFF))"

definition word_bytes :: "32 word \<Rightarrow> string" where
  "word_bytes w = [byte_at 3 w, byte_at 2 w, byte_at 1 w, byte_at 0 w]"

definition length_bytes :: "nat \<Rightarrow> string" where
  "length_bytes n = map (\<lambda>k. byte_at k (of_nat n * 8 :: 64 word)) [7, 6, 5, 4, 3, 2, 1, 0]"

definition sha256_pad :: "string \<Rightarrow> string" where
  "sha256_pad msg =
     msg @ [CHR 0x80] @ replicate ((119 - length msg mod 64) mod 64) (CHR 0x00)
     @ length_bytes (length msg)"

definition be_word :: "string \<Rightarrow> 32 word" where
  "be_word bs = foldl (\<lambda>acc c. push_bit 8 acc OR of_char c) 0 (take 4 bs)"

definition block_words :: "string \<Rightarrow> 32 word list" where
  "block_words block = map (\<lambda>i. be_word (drop (4 * i) block)) [0..<16]"

fun extend_schedule :: "nat \<Rightarrow> 32 word list \<Rightarrow> 32 word list" where
  "extend_schedule 0 w = w"
| "extend_schedule (Suc n) w =
     extend_schedule n
       (w @ [sigma1 (w ! (length w - 2)) + w ! (length w - 7)
             + sigma0 (w ! (length w - 15)) + w ! (length w - 16)])"

definition sha256_round :: "32 word list \<Rightarrow> 32 word \<times> 32 word \<Rightarrow> 32 word list" where
  "sha256_round s kw =
     (case s of
        [a, b, c, d, e, f, g, h] \<Rightarrow>
          [h + Sigma1 e + Ch e f g + fst kw + snd kw + (Sigma0 a + Maj a b c),
           a, b, c,
           d + (h + Sigma1 e + Ch e f g + fst kw + snd kw),
           e, f, g]
      | _ \<Rightarrow> s)"

definition sha256_compress :: "32 word list \<Rightarrow> string \<Rightarrow> 32 word list" where
  "sha256_compress hs block =
     map2 (+) hs (foldl sha256_round hs (zip K256 (extend_schedule 48 (block_words block))))"

fun sha256_blocks :: "nat \<Rightarrow> 32 word list \<Rightarrow> string \<Rightarrow> 32 word list" where
  "sha256_blocks 0 hs m = hs"
| "sha256_blocks (Suc n) hs m = sha256_blocks n (sha256_compress hs (take 64 m)) (drop 64 m)"

definition sha256 :: "string \<Rightarrow> string" where
  "sha256 msg =
     concat (map word_bytes
       (sha256_blocks (length (sha256_pad msg) div 64) H256 (sha256_pad msg)))"

definition hmac_key_block :: "string \<Rightarrow> string" where
  "hmac_key_block key =
     (if 64 < length key then sha256 key @ replicate 32 (CHR 0x00)
      else key @ replicate (64 - length key) (CHR 0x00))"

definition xor_bytes :: "nat \<Rightarrow> string \<Rightarrow> string" where
  "xor_bytes p bs = map (\<lambda>c. char_of ((of_char c :: nat) XOR p)) bs"

definition hmac_sha256 :: "string \<Rightarrow> string \<Rightarrow> string" where
  "hmac_sha256 key msg =
     sha256 (xor_bytes 0x5c (hmac_key_block key)
             @ sha256 (xor_bytes 0x36 (hmac_key_block key) @ msg))"

subsection \<open>\<^verbatim>\<open>createToken\<close> and the handler\<close>

text \<open>
  \<^verbatim>\<open>createToken(identity, roomName)\<close> reads the two credentials from the environment and
  the clock (\<^verbatim>\<open>Date.now()\<close>, in milliseconds) on its own; they are arguments here. Its two
  objects \<^verbatim>\<open>header\<close> and \<^verbatim>\<open>payload\<close> are definitions of their own, \<^verbatim>\<open>exp\<close> written out as
  \<^verbatim>\<open>now + (24 * 60 * 60)\<close>. An unset
  \<^verbatim>\<open>LIVEKIT_API_KEY\<close> is a member \<^verbatim>\<open>iss: undefined\<close>, which \<^verbatim>\<open>JSON.stringify\<close> leaves
  out; with an unset secret \<^verbatim>\<open>createHmac\<close> throws a \<^verbatim>\<open>TypeError\<close> (of Node.js, with code
  \<^verbatim>\<open>ERR_INVALID_ARG_TYPE\<close>).
\<close>

definition header :: json where
  "header = JObject [(''alg'', JString ''HS256''), (''typ'', JString ''JWT'')]"

definition payload :: "string option \<Rightarrow> int \<Rightarrow> string \<Rightarrow> string \<Rightarrow> json" where
  "payload api_key now ident roomName =
     JObject
       ([(''exp'', JNumber (now + 24 * 60 * 60))]
        @ (case api_key of None \<Rightarrow> [] | Some k \<Rightarrow> [(''iss'', JString k)])
        @ [(''name'', JString ident),
           (''nbf'', JNumber now),
           (''sub'', JString ident),
           (''video'', JObject
              [(''room'', JString roomName),
               (''roomJoin'', JBool True),
               (''canPublish'', JBool True),
               (''canSubscribe'', JBool True),
               (''canPublishData'', JBool True)])])"

text \<open>The message of the \<^verbatim>\<open>TypeError\<close> of \<^verbatim>\<open>createHmac('sha256', undefined)\<close>.\<close>

definition invalid_key_message :: string where
  "invalid_key_message =
     ''The '' @ [CHR 0x22] @ ''key'' @ [CHR 0x22]
     @ '' argument must be of type string or an instance of ArrayBuffer, Buffer, ''
     @ ''TypedArray, DataView, KeyObject, or CryptoKey. Received undefined''"

definition createToken :: "process_env \<Rightarrow> int \<Rightarrow> string \<Rightarrow> string \<Rightarrow> exn + string" where
  "createToken env date_now ident roomName =
     (let now = date_now div 1000;
          headerEncoded = base64UrlEncode (stringify header);
          payloadEncoded =
            base64UrlEncode (stringify (payload (LIVEKIT_API_KEY env) now ident roomName))
      in case LIVEKIT_API_SECRET env of
           None \<Rightarrow> Inl (Error invalid_key_message)
         | Some secret \<Rightarrow>
             Inr (headerEncoded @ ''.'' @ payloadEncoded @ ''.'' @
                  url_safe (base64 (hmac_sha256 secret
                                      (headerEncoded @ ''.'' @ payloadEncoded)))))"

text \<open>
  The exported handler of the token function: the answer and the calls of the console.
  Of the request it reads the method and the query parameters \<^verbatim>\<open>identity\<close> and
  \<^verbatim>\<open>room\<close>.
\<close>

definition token_handler ::
  "process_env \<Rightarrow> int \<Rightarrow> request \<Rightarrow> http_result \<times> logged list list" where
  "token_handler env date_now req =
     (if req_method req = ''OPTIONS'' then (\<lparr>status = 200, body = NoBody\<rparr>, [])
      else if \<not> truthy (req_identity req) \<or> \<not> truthy (req_room req) then
        (\<lparr>status = 400, body = ErrorBody ''Missing identity or room parameter''\<rparr>, [])
      else if \<not> truthy (LIVEKIT_API_KEY env) \<or> \<not> truthy (LIVEKIT_API_SECRET env) then
        (\<lparr>status = 500,
          body = ErrorBody (''Server not configured. Missing LIVEKIT_API_KEY or ''
                            @ ''LIVEKIT_API_SECRET environment variables.'')\<rparr>, [])
      else
        (case createToken env date_now (or_else (req_identity req) [])
                (or_else (req_room req) []) of
           Inr token \<Rightarrow>
             (\<lparr>status = 200, body = TokenBody token\<rparr>,
              [[Text (''Token generated for user: '' @ or_else (req_identity req) []
                      @ '', room: '' @ or_else (req_room req) [])]])
         | Inl (Error msg) \<Rightarrow>
             (\<lparr>status = 500, body = ErrorBody ''Failed to generate token''\<rparr>,
              [[Text ''Error generating token:'', Thrown (Error msg)]])))"

section \<open>Notions of the specification\<close>

text \<open>
  The per-room state of the specification's state machine, read off the map: a room is
  \<open>Recording\<close> when it has an entry, \<open>Idle\<close> otherwise.
\<close>

datatype room_state = Idle | Recording

definition room_state :: "tracker \<Rightarrow> string \<Rightarrow> room_state" where
  "room_state st r = (case activeRecordings st r of None \<Rightarrow> Idle | Some _ \<Rightarrow> Recording)"

text \<open>
  The output path in the specification's words: \<^verbatim>\<open>'recordings/' + room + '/' + s + '.ogg'\<close>,
  with \<open>s\<close> the ISO-8601 rendering of the start time in which every \<^verbatim>\<open>:\<close> and \<^verbatim>\<open>.\<close> is
  replaced by \<^verbatim>\<open>-\<close>.
\<close>

definition spec_output_path :: "string \<Rightarrow> int \<Rightarrow> string" where
  "spec_output_path r t =
     ''recordings/'' @ r @ ''/'' @
     map (\<lambda>c. if c = CHR '':'' \<or> c = CHR ''.'' then CHR ''-'' else c) (toISOString t) @
     ''.ogg''"

text \<open>All five credentials the recording handler checks are set and non-empty.\<close>

definition configured :: "process_env \<Rightarrow> bool" where
  "configured env =
     (truthy (LIVEKIT_API_KEY env) \<and> truthy (LIVEKIT_API_SECRET env)
      \<and> truthy (AZURE_ACCOUNT_NAME env) \<and> truthy (AZURE_ACCOUNT_KEY env)
      \<and> truthy (AZURE_CONTAINER_NAME env))"

text \<open>
  The unpadded URL-safe base64 alphabet of the specification, and decoding in it: four
  characters give three bytes, a last group of three or two characters gives two bytes or
  one; a character outside the alphabet, or a single last character, has no decoding.
\<close>

definition base64url_alphabet :: string where
  "base64url_alphabet = ''ABCDEFGHIJKLMNOPQRSTUVWXYZabcdefghijklmnopqrstuvwxyz0123456789-_''"

definition url_char :: "nat \<Rightarrow> char" where
  "url_char i = base64url_alphabet ! i"

fun index_of :: "char \<Rightarrow> string \<Rightarrow> nat option" where
  "index_of c [] = None"
| "index_of c (x # xs) = (if c = x then Some 0 else map_option Suc (index_of c xs))"

definition sextet :: "char \<Rightarrow> nat option" where
  "sextet c = index_of c base64url_alphabet"

fun base64UrlDecode :: "string \<Rightarrow> string option" where
  "base64UrlDecode (c1 # c2 # c3 # c4 # rest) =
     Option.bind (sextet c1) (\<lambda>i. Option.bind (sextet c2) (\<lambda>j.
     Option.bind (sextet c3) (\<lambda>k. Option.bind (sextet c4) (\<lambda>l.
     Option.bind (base64UrlDecode rest) (\<lambda>bs.
       Some (char_of (i * 4 + j div 16) # char_of (j mod 16 * 16 + k div 4)
             # char_of (k mod 4 * 64 + l) # bs))))))"
| "base64UrlDecode [c1, c2, c3] =
     Option.bind (sextet c1) (\<lambda>i. Option.bind (sextet c2) (\<lambda>j.
     Option.bind (sextet c3) (\<lambda>k.
       Some [char_of (i * 4 + j div 16), char_of (j mod 16 * 16 + k div 4)])))"
| "base64UrlDecode [c1, c2] =
     Option.bind (sextet c1) (\<lambda>i. Option.bind (sextet c2) (\<lambda>j.
       Some [char_of (i * 4 + j div 16)]))"
| "base64UrlDecode [c1] = None"
| "base64UrlDecode [] = Some []"

text \<open>The three replacements, character by character.\<close>

definition url_subst :: "char \<Rightarrow> char" where
  "url_subst c = (if c = CHR ''+'' then CHR ''-'' else if c = CHR ''/'' then CHR ''_'' else c)"

subsection \<open>Decoding a segment\<close>

text \<open>
  Reading JSON text back, for the texts \<^verbatim>\<open>JSON.stringify\<close> writes: no white space, string
  escapes within ASCII, integers. The parser of values carries fuel, one unit for every
  value and every member entered; the length of the text is always enough.
\<close>

definition is_digit :: "char \<Rightarrow> bool" where
  "is_digit c = (48 \<le> (of_char c :: nat) \<and> (of_char c :: nat) \<le> 57)"

definition digit_value :: "char \<Rightarrow> int" where
  "digit_value c = int (of_char c) - 48"

fun parse_digits :: "int \<Rightarrow> string \<Rightarrow> int \<times> string" where
  "parse_digits acc [] = (acc, [])"
| "parse_digits acc (c # cs) =
     (if is_digit c then parse_digits (acc * 10 + digit_value c) cs else (acc, c # cs))"

definition parse_number :: "string \<Rightarrow> (json \<times> string) option" where
  "parse_number s =
     (case s of
        [] \<Rightarrow> None
      | c # cs \<Rightarrow>
          if c = CHR ''-'' then
            (case cs of
               [] \<Rightarrow> None
             | d # _ \<Rightarrow>
                 if is_digit d then
                   Some (JNumber (- fst (parse_digits 0 cs)), snd (parse_digits 0 cs))
                 else None)
          else if is_digit c then
            Some (JNumber (fst (parse_digits 0 s)), snd (parse_digits 0 s))
          else None)"

definition hex_value :: "char \<Rightarrow> nat option" where
  "hex_value c =
     (case index_of c ''0123456789abcdef'' of
        Some v \<Rightarrow> Some v
      | None \<Rightarrow> index_of c ''0123456789ABCDEF'')"

definition hex4 :: "char \<Rightarrow> char \<Rightarrow> char \<Rightarrow> char \<Rightarrow> nat option" where
  "hex4 a b c d =
     Option.bind (hex_value a) (\<lambda>x. Option.bind (hex_value b) (\<lambda>y.
     Option.bind (hex_value c) (\<lambda>z. Option.bind (hex_value d) (\<lambda>w.
       Some (((x * 16 + y) * 16 + z) * 16 + w)))))"

definition simple_escape :: "char \<Rightarrow> char option" where
  "simple_escape e =
     (if e = CHR 0x22 then Some (CHR 0x22)
      else if e = CHR 0x5C then Some (CHR 0x5C)
      else if e = CHR ''/'' then Some (CHR ''/'')
      else if e = CHR ''b'' then Some (CHR 0x08)
      else if e = CHR ''t'' then Some (CHR 0x09)
      else if e = CHR ''n'' then Some (CHR 0x0A)
      else if e = CHR ''f'' then Some (CHR 0x0C)
      else if e = CHR ''r'' then Some (CHR 0x0D)
      else None)"

fun parse_chars :: "string \<Rightarrow> (string \<times> string) option"
  and parse_escaped :: "string \<Rightarrow> (string \<times> string) option"
  and parse_unicode :: "string \<Rightarrow> (string \<times> string) option" where
  "parse_chars [] = None"
| "parse_chars (c # cs) =
     (if c = CHR 0x22 then Some ([], cs)
      else if c = CHR 0x5C then parse_escaped cs
      else if (of_char c :: nat) < 0x20 then None
      else map_option (apfst (Cons c)) (parse_chars cs))"
| "parse_escaped [] = None"
| "parse_escaped (e # es) =
     (if e = CHR ''u'' then parse_unicode es
      else (case simple_escape e of
              None \<Rightarrow> None
            | Some d \<Rightarrow> map_option (apfst (Cons d)) (parse_chars es)))"
| "parse_unicode (h1 # h2 # h3 # h4 # r) =
     (case hex4 h1 h2 h3 h4 of
        None \<Rightarrow> None
      | Some n \<Rightarrow>
          if n < 128 then map_option (apfst (Cons (char_of n))) (parse_chars r) else None)"
| "parse_unicode _ = None"

definition expect :: "char \<Rightarrow> string \<Rightarrow> string option" where
  "expect c s = (case s of [] \<Rightarrow> None | x # xs \<Rightarrow> if x = c then Some xs else None)"

fun parse_value :: "nat \<Rightarrow> string \<Rightarrow> (json \<times> string) option"
  and parse_members :: "nat \<Rightarrow> string \<Rightarrow> ((string \<times> json) list \<times> string) option" where
  "parse_value 0 s = None"
| "parse_value (Suc n) [] = None"
| "parse_value (Suc n) (c # cs) =
     (if c = CHR 0x22 then map_option (apfst JString) (parse_chars cs)
      else if c = CHR ''{'' then
        (if take 1 cs = ''}'' then Some (JObject [], drop 1 cs)
         else map_option (apfst JObject) (parse_members n cs))
      else if take 4 (c # cs) = ''true'' then Some (JBool True, drop 4 (c # cs))
      else if take 5 (c # cs) = ''false'' then Some (JBool False, drop 5 (c # cs))
      else parse_number (c # cs))"
| "parse_members 0 s = None"
| "parse_members (Suc n) s =
     (case expect (CHR 0x22) s of
        None \<Rightarrow> None
      | Some s1 \<Rightarrow>
          (case parse_chars s1 of
             None \<Rightarrow> None
           | Some (k, s2) \<Rightarrow>
               (case expect (CHR '':'') s2 of
                  None \<Rightarrow> None
                | Some s3 \<Rightarrow>
                    (case parse_value n s3 of
                       None \<Rightarrow> None
                     | Some (v, s4) \<Rightarrow>
                         (case s4 of
                            [] \<Rightarrow> None
                          | d # s5 \<Rightarrow>
                              if d = CHR '','' then
                                map_option (apfst (Cons (k, v))) (parse_members n s5)
                              else if d = CHR ''}'' then Some ([(k, v)], s5)
                              else None)))))"

definition json_parse :: "string \<Rightarrow> json option" where
  "json_parse s =
     (case parse_value (length s) s of
        None \<Rightarrow> None
      | Some (j, rest) \<Rightarrow> if rest = [] then Some j else None)"

text \<open>
  The member of an object under a key, \<^verbatim>\<open>obj[key]\<close>: of several members with the same key
  the last one counts, as for \<^verbatim>\<open>JSON.parse\<close>; \<open>None\<close> is \<^verbatim>\<open>undefined\<close>.
\<close>

definition member :: "json \<Rightarrow> string \<Rightarrow> json option" where
  "member j k = (case j of JObject ms \<Rightarrow> map_of (rev ms) k | _ \<Rightarrow> None)"

text \<open>What decoding a segment of a credential yields: the JSON value of its bytes.\<close>

definition decode_segment :: "string \<Rightarrow> json option" where
  "decode_segment seg = Option.bind (base64UrlDecode seg) json_parse"

text \<open>The fuel that reading a value back takes.\<close>

fun fuel :: "json \<Rightarrow> nat" where
  "fuel (JString s) = 1"
| "fuel (JNumber n) = 1"
| "fuel (JBool b) = 1"
| "fuel (JObject members) = Suc (sum_list (map (\<lambda>(k, v). Suc (fuel v)) members))"

text \<open>A text at which a run of digits ends: the empty text, or one that starts with no digit.\<close>

definition no_digit_ahead :: "string \<Rightarrow> bool" where
  "no_digit_ahead rest = (case rest of [] \<Rightarrow> True | c # _ \<Rightarrow> \<not> is_digit c)"

subsection \<open>Concrete inputs\<close>

definition example_env :: process_env where
  "example_env =
     \<lparr>LIVEKIT_API_KEY = Some ''APIkey'', LIVEKIT_API_SECRET = Some ''secret'',
      LIVEKIT_URL = None, AZURE_ACCOUNT_NAME = Some ''acct'',
      AZURE_ACCOUNT_KEY = Some ''azkey'', AZURE_CONTAINER_NAME = Some ''audio''\<rparr>"

definition example_amb :: ambient where
  "example_amb =
     \<lparr>clock_first = 1700000000000, clock_second = 1700000000250,
      start_outcome = Inr ''EG_abc123'', stop_outcome = Inr ()\<rparr>"

definition failing_amb :: ambient where
  "failing_amb =
     \<lparr>clock_first = 1700000000000, clock_second = 1700000000250,
      start_outcome = Inl ''egress unavailable'',
      stop_outcome = Inl ''egress unavailable''\<rparr>"

definition empty_tracker :: tracker where
  "empty_tracker = \<lparr>activeRecordings = Map.empty, egress_requests = [], console = []\<rparr>"

definition example_recording :: recording where
  "example_recording =
     \<lparr>egressId = ''EG_old'', startedBy = ''dr-who'',
      startedAt = ''2023-11-14T22:13:20.000Z'',
      filepath = ''recordings/room-A/2023-11-14T22-13-20-000Z.ogg''\<rparr>"

definition busy_tracker :: tracker where
  "busy_tracker =
     \<lparr>activeRecordings = [''room-A'' \<mapsto> example_recording],
      egress_requests = [], console = []\<rparr>"

definition example_request :: "string \<Rightarrow> string option \<Rightarrow> string option \<Rightarrow> request" where
  "example_request act r eid =
     \<lparr>req_method = ''POST'', req_action = Some act, req_room = r,
      req_egressId = eid, req_identity = Some ''alice''\<rparr>"

definition started_result :: http_result where
  "started_result =
     \<lparr>status = 200,
      body = StartedBody ''EG_abc123'' ''recordings/room-A/2023-11-14T22-13-20-000Z.ogg''
               ''Recording started''\<rparr>"

definition started_tracker :: tracker where
  "started_tracker =
     \<lparr>activeRecordings = [''room-A'' \<mapsto>
        \<lparr>egressId = ''EG_abc123'', startedBy = ''alice'',
         startedAt = ''2023-11-14T22:13:20.250Z'',
         filepath = ''recordings/room-A/2023-11-14T22-13-20-000Z.ogg''\<rparr>],
      egress_requests =
        [StartRoomCompositeEgress ''room-A''
           \<lparr>fileType = ''OGG'',
            out_filepath = ''recordings/room-A/2023-11-14T22-13-20-000Z.ogg'',
            accountName = Some ''acct'', accountKey = Some ''azkey'',
            containerName = Some ''audio''\<rparr>],
      console = [[Text ''Recording started for room: room-A, egressId: EG_abc123'']]\<rparr>"

text \<open>
  An egress service that accepts the start and hands back the empty string as session id,
  and the answer and the state of a start with it.
\<close>

definition blank_id_amb :: ambient where
  "blank_id_amb =
     \<lparr>clock_first = 1700000000000, clock_second = 1700000000250,
      start_outcome = Inr [], stop_outcome = Inr ()\<rparr>"

definition blank_id_result :: http_result where
  "blank_id_result =
     \<lparr>status = 200,
      body = StartedBody [] ''recordings/room-A/2023-11-14T22-13-20-000Z.ogg''
               ''Recording started''\<rparr>"

definition blank_id_tracker :: tracker where
  "blank_id_tracker =
     \<lparr>activeRecordings = [''room-A'' \<mapsto>
        \<lparr>egressId = [], startedBy = ''alice'',
         startedAt = ''2023-11-14T22:13:20.250Z'',
         filepath = ''recordings/room-A/2023-11-14T22-13-20-000Z.ogg''\<rparr>],
      egress_requests =
        [StartRoomCompositeEgress ''room-A''
           \<lparr>fileType = ''OGG'',
            out_filepath = ''recordings/room-A/2023-11-14T22-13-20-000Z.ogg'',
            accountName = Some ''acct'', accountKey = Some ''azkey'',
            containerName = Some ''audio''\<rparr>],
      console = [[Text ''Recording started for room: room-A, egressId: '']]\<rparr>"

text \<open>The credential of \<^verbatim>\<open>alice\<close> in \<^verbatim>\<open>room-A\<close>, issued in the example environment.\<close>

definition example_token :: string where
  "example_token =
     (case createToken example_env 1700000000999 ''alice'' ''room-A'' of
        Inr tok \<Rightarrow> tok | Inl _ \<Rightarrow> [])"

section \<open>Properties of the recording function\<close>

subsection \<open>Strings\<close>

lemma split_on_nonempty: "split_on c xs \<noteq> []"
  by (induction xs) (auto split: list.splits)

lemma split_on_append: "split_on c (xs @ c # ys) = split_on c xs @ split_on c ys"
proof (induction xs)
  case Nil
  show ?case by simp
next
  case (Cons x xs)
  obtain w ws where "split_on c xs = w # ws"
    using split_on_nonempty [of c xs] by (cases "split_on c xs") auto
  with Cons show ?case by simp
qed

lemma split_on_absent: "c \<notin> set xs \<Longrightarrow> split_on c xs = [xs]"
  by (induction xs) auto

lemma split_on_present: "c \<in> set xs \<Longrightarrow> 2 \<le> length (split_on c xs)"
proof -
  assume "c \<in> set xs"
  then obtain ys zs where "xs = ys @ c # zs"
    by (auto simp: in_set_conv_decomp)
  moreover have "1 \<le> length (split_on c ys)" and "1 \<le> length (split_on c zs)"
    using split_on_nonempty [of c ys] split_on_nonempty [of c zs]
    by (simp_all add: Suc_le_eq)
  ultimately show ?thesis by (simp add: split_on_append)
qed

lemma replace_all_single: "replace_all p [d] s = map (\<lambda>c. if p c then d else c) s"
  by (induction s) (auto simp: replace_all_def)

lemma digit_char_in: "digit_char d \<in> set ''0123456789''"
  unfolding digit_char_def by (rule nth_mem) (simp add: nat_less_iff)

lemma pad_digits: "set (pad w n) \<subseteq> set ''0123456789''"
proof (induction w arbitrary: n)
  case 0
  show ?case by simp
next
  case (Suc w)
  have "set (pad w (n div 10)) \<subseteq> set ''0123456789''" by (rule Suc.IH)
  moreover have "digit_char n \<in> set ''0123456789''" by (rule digit_char_in)
  ultimately show ?case by simp
qed

lemma slash_not_in_pad: "CHR ''/'' \<notin> set (pad w n)"
  using pad_digits [of w n] by auto

lemma slash_not_in_year: "CHR ''/'' \<notin> set (year_string y)"
  by (simp add: year_string_def slash_not_in_pad)

lemma slash_not_in_iso: "CHR ''/'' \<notin> set (toISOString t)"
  by (simp add: toISOString_def Let_def split_def slash_not_in_pad slash_not_in_year)

lemma toISOString_example: "toISOString 1700000000000 = ''2023-11-14T22:13:20.000Z''"
  by code_simp

lemma toISOString_example': "toISOString 1700000000250 = ''2023-11-14T22:13:20.250Z''"
  by code_simp

subsection \<open>The three operations, case by case\<close>

lemma startRecording_busy:
  "activeRecordings st r = Some existing \<Longrightarrow>
     startRecording env amb r ident st =
       (Inr \<lparr>status = 409,
             body = ConflictBody ''Recording already in progress''
                      (startedBy existing) (egressId existing)\<rparr>, st)"
  by (simp add: startRecording_def)

lemma startRecording_path:
  "''recordings/'' @ r @ ''/'' @
     replace_all (\<lambda>c. c = CHR '':'' \<or> c = CHR ''.'') ''-'' (toISOString t) @ ''.ogg''
   = spec_output_path r t"
  by (simp add: spec_output_path_def replace_all_single)

lemma startRecording_idle_ok:
  assumes "activeRecordings st r = None" and "start_outcome amb = Inr eid"
  shows "startRecording env amb r ident st =
     (Inr \<lparr>status = 200,
           body = StartedBody eid (spec_output_path r (clock_first amb))
                    ''Recording started''\<rparr>,
      st\<lparr>egress_requests := egress_requests st @
            [StartRoomCompositeEgress r
               \<lparr>fileType = ''OGG'',
                out_filepath = spec_output_path r (clock_first amb),
                accountName = AZURE_ACCOUNT_NAME env,
                accountKey = AZURE_ACCOUNT_KEY env,
                containerName = AZURE_CONTAINER_NAME env\<rparr>],
         activeRecordings := (activeRecordings st)(r \<mapsto>
            \<lparr>egressId = eid, startedBy = or_else ident ''unknown'',
             startedAt = toISOString (clock_second amb),
             filepath = spec_output_path r (clock_first amb)\<rparr>),
         console := console st @
            [[Text (''Recording started for room: '' @ r @ '', egressId: '' @ eid)]]\<rparr>)"
  using assms
  by (simp add: startRecording_def Let_def startRecording_path del: append.simps append_assoc)

lemma startRecording_idle_fail:
  assumes "activeRecordings st r = None" and "start_outcome amb = Inl msg"
  shows "startRecording env amb r ident st =
     (Inl (Error msg),
      st\<lparr>egress_requests := egress_requests st @
            [StartRoomCompositeEgress r
               \<lparr>fileType = ''OGG'',
                out_filepath = spec_output_path r (clock_first amb),
                accountName = AZURE_ACCOUNT_NAME env,
                accountKey = AZURE_ACCOUNT_KEY env,
                containerName = AZURE_CONTAINER_NAME env\<rparr>]\<rparr>)"
  using assms
  by (simp add: startRecording_def Let_def startRecording_path del: append.simps append_assoc)

lemma stopRecording_room_ok:
  assumes "r \<noteq> []" and "activeRecordings st r = Some info" and "egressId info \<noteq> []"
    and "stop_outcome amb = Inr u"
  shows "stopRecording amb (Some r) sid st =
     (Inr \<lparr>status = 200,
           body = StoppedBody (egressId info) (Some (filepath info)) ''Recording stopped''\<rparr>,
      st\<lparr>egress_requests := egress_requests st @ [StopEgress (egressId info)],
         activeRecordings := (activeRecordings st)(r := None),
         console := console st @
            [[Text (''Recording stopped for egressId: '' @ egressId info)]]\<rparr>)"
  using assms by (simp add: stopRecording_def Let_def truthy_def or_else_def)

lemma stopRecording_room_fail:
  assumes "r \<noteq> []" and "activeRecordings st r = Some info" and "egressId info \<noteq> []"
    and "stop_outcome amb = Inl msg"
  shows "stopRecording amb (Some r) sid st =
     (Inl (Error msg),
      st\<lparr>egress_requests := egress_requests st @ [StopEgress (egressId info)]\<rparr>)"
  using assms by (simp add: stopRecording_def Let_def truthy_def or_else_def)

lemma no_record_resolved:
  assumes "\<not> truthy rm \<or> activeRecordings st (or_else rm []) = None"
  shows "(case rm of None \<Rightarrow> None
          | Some r \<Rightarrow> if r \<noteq> [] then activeRecordings st r else None) = None"
  using assms by (auto simp: truthy_def or_else_def split: option.splits)

lemma no_record_delete:
  assumes "\<not> truthy rm \<or> activeRecordings st (or_else rm []) = None"
  shows "(if truthy rm then (activeRecordings st)(or_else rm [] := None)
          else activeRecordings st) = activeRecordings st"
  using assms by auto

lemma tracker_same_map: "st\<lparr>activeRecordings := activeRecordings st\<rparr> = st"
  by simp

lemma stopRecording_by_id_ok:
  assumes "\<not> truthy rm \<or> activeRecordings st (or_else rm []) = None"
    and "s \<noteq> []" and "stop_outcome amb = Inr u"
  shows "stopRecording amb rm (Some s) st =
     (Inr \<lparr>status = 200, body = StoppedBody s None ''Recording stopped''\<rparr>,
      st\<lparr>egress_requests := egress_requests st @ [StopEgress s],
         console := console st @ [[Text (''Recording stopped for egressId: '' @ s)]]\<rparr>)"
proof -
  have tr: "truthy (Some s)" and oe: "or_else (Some s) [] = s"
    using assms(2) by (simp_all add: truthy_def or_else_def)
  have "stopRecording amb rm (Some s) st =
     (Inr \<lparr>status = 200, body = StoppedBody s None ''Recording stopped''\<rparr>,
      st\<lparr>egress_requests := egress_requests st @ [StopEgress s],
         activeRecordings :=
           (if truthy rm then (activeRecordings st)(or_else rm [] := None)
            else activeRecordings st),
         console := console st @ [[Text (''Recording stopped for egressId: '' @ s)]]\<rparr>)"
    unfolding stopRecording_def no_record_resolved [OF assms(1)] Let_def
    using assms(3) tr oe by (simp del: append.simps)
  then show ?thesis
    unfolding no_record_delete [OF assms(1)] by simp
qed

lemma stopRecording_not_found:
  assumes "\<not> truthy rm \<or> activeRecordings st (or_else rm []) = None"
    and "\<not> truthy sid"
  shows "stopRecording amb rm sid st =
     (Inr \<lparr>status = 404, body = ErrorBody ''No active recording found for this room''\<rparr>,
      st)"
  unfolding stopRecording_def no_record_resolved [OF assms(1)]
  using assms(2) by (simp add: Let_def)

lemma startRecording_map_on_failure:
  "start_outcome amb = Inl msg \<Longrightarrow>
     activeRecordings (snd (startRecording env amb r ident st)) = activeRecordings st"
  by (cases "activeRecordings st r")
     (simp_all add: startRecording_idle_fail startRecording_busy)

lemma stopRecording_map_on_failure:
  "stop_outcome amb = Inl msg \<Longrightarrow>
     activeRecordings (snd (stopRecording amb rm sid st)) = activeRecordings st"
  by (simp add: stopRecording_def Let_def)

lemma getRecordingStatus_idle:
  "activeRecordings st r = None \<Longrightarrow>
     getRecordingStatus r st = \<lparr>status = 200, body = StatusBody False None\<rparr>"
  by (simp add: getRecordingStatus_def)

lemma getRecordingStatus_recording:
  "activeRecordings st r = Some info \<Longrightarrow>
     getRecordingStatus r st =
       \<lparr>status = 200,
        body = StatusBody True (Some (egressId info, startedBy info, startedAt info))\<rparr>"
  by (simp add: getRecordingStatus_def)

lemma handler_start:
  assumes "configured env" and "req_method req \<noteq> ''OPTIONS''"
    and "req_action req = Some ''start''" and "req_room req = Some r" and "r \<noteq> []"
  shows "handler env amb req st = respond (startRecording env amb r (req_identity req) st)"
  using assms by (simp add: handler_def configured_def truthy_def or_else_def)

lemma handler_stop:
  assumes "configured env" and "req_method req \<noteq> ''OPTIONS''"
    and "req_action req = Some ''stop''"
    and "truthy (req_room req) \<or> truthy (req_egressId req)"
  shows "handler env amb req st =
           respond (stopRecording amb (req_room req) (req_egressId req) st)"
  using assms by (auto simp: handler_def configured_def)

lemma handler_status:
  assumes "configured env" and "req_method req \<noteq> ''OPTIONS''"
    and "req_action req = Some ''status''" and "req_room req = Some r" and "r \<noteq> []"
  shows "handler env amb req st = (getRecordingStatus r st, st)"
  using assms by (simp add: handler_def configured_def truthy_def or_else_def)

lemma handler_status_frame:
  "req_action req = Some ''status'' \<Longrightarrow> snd (handler env amb req st) = st"
  by (simp add: handler_def)

lemma spec_output_path_example:
  "spec_output_path ''room-A'' 1700000000000 =
     ''recordings/room-A/2023-11-14T22-13-20-000Z.ogg''"
  by (simp add: spec_output_path_def toISOString_example)

lemma start_example:
  "startRecording example_env example_amb ''room-A'' (Some ''alice'') empty_tracker =
     (Inr started_result, started_tracker)"
proof -
  have idle: "activeRecordings empty_tracker ''room-A'' = None"
    by (simp add: empty_tracker_def)
  have ok: "start_outcome example_amb = Inr ''EG_abc123''"
    by (simp add: example_amb_def)
  have clocks: "clock_first example_amb = 1700000000000"
    "clock_second example_amb = 1700000000250"
    by (simp_all add: example_amb_def)
  show ?thesis
    unfolding startRecording_idle_ok [OF idle ok] clocks spec_output_path_example
      toISOString_example'
    by (simp add: example_env_def empty_tracker_def started_result_def
        started_tracker_def or_else_def)
qed

section \<open>The claims about the recording tracker\<close>

text \<open>
  Claim C4. In every state in which room \<open>r\<close> has an active record, \<^verbatim>\<open>start(r, identity)\<close>
  answers 409 (Conflict) with the session id and the starter of the existing record, and
  returns the process state as it was: the map is unchanged, so the tracked session id is
  the same before and after, and no request went to the egress service, so no new session
  was created. In particular, when a first \<^verbatim>\<open>start\<close> for a room has answered (with 200 or
  with 409), a second \<^verbatim>\<open>start\<close> for that room with no \<^verbatim>\<open>stop\<close> in between answers 409
  with the tracked record, whatever the egress service would have done, and changes
  nothing.
\<close>

theorem start_conflict:
  "(activeRecordings st r = Some existing \<longrightarrow>
      startRecording env amb r ident st =
        (Inr \<lparr>status = 409,
              body = ConflictBody ''Recording already in progress''
                       (startedBy existing) (egressId existing)\<rparr>, st))
   \<and> (startRecording env amb1 r ident1 st = (Inr res1, st1) \<longrightarrow>
        (\<exists>tracked. activeRecordings st1 r = Some tracked
           \<and> startRecording env amb2 r ident2 st1 =
               (Inr \<lparr>status = 409,
                     body = ConflictBody ''Recording already in progress''
                              (startedBy tracked) (egressId tracked)\<rparr>, st1)))"
proof (intro conjI impI)
  assume "activeRecordings st r = Some existing"
  then show "startRecording env amb r ident st =
        (Inr \<lparr>status = 409,
              body = ConflictBody ''Recording already in progress''
                       (startedBy existing) (egressId existing)\<rparr>, st)"
    by (rule startRecording_busy)
next
  assume first: "startRecording env amb1 r ident1 st = (Inr res1, st1)"
  have "\<exists>tracked. activeRecordings st1 r = Some tracked"
  proof (cases "activeRecordings st r")
    case (Some existing)
    with first show ?thesis by (simp add: startRecording_busy)
  next
    case None
    show ?thesis
    proof (cases "start_outcome amb1")
      case (Inl msg)
      with None first show ?thesis by (simp add: startRecording_idle_fail)
    next
      case (Inr eid)
      with None first show ?thesis by (auto simp: startRecording_idle_ok)
    qed
  qed
  then obtain tracked where "activeRecordings st1 r = Some tracked" ..
  then show "\<exists>tracked. activeRecordings st1 r = Some tracked
           \<and> startRecording env amb2 r ident2 st1 =
               (Inr \<lparr>status = 409,
                     body = ConflictBody ''Recording already in progress''
                              (startedBy tracked) (egressId tracked)\<rparr>, st1)"
    by (simp add: startRecording_busy)
qed


theorem start_conflict_witness:
  "activeRecordings busy_tracker ''room-A'' = Some example_recording
   \<and> startRecording example_env failing_amb ''room-A'' (Some ''bob'') busy_tracker =
       (Inr \<lparr>status = 409,
             body = ConflictBody ''Recording already in progress'' ''dr-who'' ''EG_old''\<rparr>,
        busy_tracker)
   \<and> startRecording example_env example_amb ''room-A'' (Some ''alice'') empty_tracker =
       (Inr started_result, started_tracker)
   \<and> startRecording example_env failing_amb ''room-A'' (Some ''bob'') started_tracker =
       (Inr \<lparr>status = 409,
             body = ConflictBody ''Recording already in progress'' ''alice'' ''EG_abc123''\<rparr>,
        started_tracker)"
proof -
  have busy: "activeRecordings busy_tracker ''room-A'' = Some example_recording"
    by (simp add: busy_tracker_def)
  note inst1 = start_conflict [where st = busy_tracker and r = "''room-A''"
      and existing = example_recording and env = example_env and amb = failing_amb
      and ident = "Some ''bob''", THEN conjunct1, rule_format, OF busy]
  note inst2 = start_conflict [where st = empty_tracker and r = "''room-A''"
      and env = example_env and ?amb1.0 = example_amb and ?ident1.0 = "Some ''alice''"
      and ?res1.0 = started_result and ?st1.0 = started_tracker
      and ?amb2.0 = failing_amb and ?ident2.0 = "Some ''bob''",
      THEN conjunct2, rule_format, OF start_example]
  from inst2 have "startRecording example_env failing_amb ''room-A'' (Some ''bob'')
        started_tracker =
       (Inr \<lparr>status = 409,
             body = ConflictBody ''Recording already in progress'' ''alice'' ''EG_abc123''\<rparr>,
        started_tracker)"
    by (auto simp: started_tracker_def)
  with busy inst1 start_example show ?thesis
    by (simp add: example_recording_def)
qed

text \<open>
  Claim C5. Resolution in \<^verbatim>\<open>stop(room?, sessionId?)\<close>, for a stop the egress service
  accepts. When a room is supplied (a non-empty string) and has an active record, the
  session stopped and reported is the record's, with the record's output path, whatever
  session id \<open>sid\<close> the caller supplied, and the record of that room is removed from the
  map. Otherwise (no room, an empty room, or a room with no record) the caller's session id
  \<open>s\<close> is the one stopped and reported, with no output path, and the map is left as it
  was: with only a session id supplied no record is removed, not even the one that holds
  this session id. The session ids the egress service hands out are non-empty strings, and
  so is the id of the record here.
\<close>

theorem stop_resolution:
  "stop_outcome amb = Inr u \<longrightarrow>
     (r \<noteq> [] \<and> activeRecordings st r = Some info \<and> egressId info \<noteq> [] \<longrightarrow>
        (\<exists>st'. stopRecording amb (Some r) sid st =
                 (Inr \<lparr>status = 200,
                       body = StoppedBody (egressId info) (Some (filepath info))
                                ''Recording stopped''\<rparr>, st')
             \<and> egress_requests st' = egress_requests st @ [StopEgress (egressId info)]
             \<and> activeRecordings st' = (activeRecordings st)(r := None)))
   \<and> (s \<noteq> [] \<and> (\<not> truthy rm \<or> activeRecordings st (or_else rm []) = None) \<longrightarrow>
        (\<exists>st'. stopRecording amb rm (Some s) st =
                 (Inr \<lparr>status = 200,
                       body = StoppedBody s None ''Recording stopped''\<rparr>, st')
             \<and> egress_requests st' = egress_requests st @ [StopEgress s]
             \<and> activeRecordings st' = activeRecordings st))"
proof (intro impI conjI)
  assume ok: "stop_outcome amb = Inr u"
    and "r \<noteq> [] \<and> activeRecordings st r = Some info \<and> egressId info \<noteq> []"
  then have "r \<noteq> []" "activeRecordings st r = Some info" "egressId info \<noteq> []"
    by simp_all
  from stopRecording_room_ok [OF this ok, of sid]
  show "\<exists>st'. stopRecording amb (Some r) sid st =
                 (Inr \<lparr>status = 200,
                       body = StoppedBody (egressId info) (Some (filepath info))
                                ''Recording stopped''\<rparr>, st')
             \<and> egress_requests st' = egress_requests st @ [StopEgress (egressId info)]
             \<and> activeRecordings st' = (activeRecordings st)(r := None)"
    by simp
next
  assume ok: "stop_outcome amb = Inr u"
    and "s \<noteq> [] \<and> (\<not> truthy rm \<or> activeRecordings st (or_else rm []) = None)"
  then have "\<not> truthy rm \<or> activeRecordings st (or_else rm []) = None" "s \<noteq> []"
    by simp_all
  from stopRecording_by_id_ok [OF this ok]
  show "\<exists>st'. stopRecording amb rm (Some s) st =
                 (Inr \<lparr>status = 200,
                       body = StoppedBody s None ''Recording stopped''\<rparr>, st')
             \<and> egress_requests st' = egress_requests st @ [StopEgress s]
             \<and> activeRecordings st' = activeRecordings st"
    by simp
qed

theorem stop_resolution_witness:
  "stop_outcome example_amb = Inr ()
   \<and> activeRecordings busy_tracker ''room-A'' = Some example_recording
   \<and> fst (stopRecording example_amb (Some ''room-A'') (Some ''EG_other'') busy_tracker) =
       Inr \<lparr>status = 200,
            body = StoppedBody ''EG_old''
                     (Some ''recordings/room-A/2023-11-14T22-13-20-000Z.ogg'')
                     ''Recording stopped''\<rparr>
   \<and> egress_requests
         (snd (stopRecording example_amb (Some ''room-A'') (Some ''EG_other'') busy_tracker)) =
       [StopEgress ''EG_old'']
   \<and> activeRecordings
         (snd (stopRecording example_amb (Some ''room-A'') (Some ''EG_other'') busy_tracker))
         ''room-A'' = None
   \<and> fst (stopRecording example_amb None (Some ''EG_old'') busy_tracker) =
       Inr \<lparr>status = 200, body = StoppedBody ''EG_old'' None ''Recording stopped''\<rparr>
   \<and> egress_requests (snd (stopRecording example_amb None (Some ''EG_old'') busy_tracker)) =
       [StopEgress ''EG_old'']
   \<and> activeRecordings (snd (stopRecording example_amb None (Some ''EG_old'') busy_tracker))
         ''room-A'' = Some example_recording"
proof -
  have ok: "stop_outcome example_amb = Inr ()"
    by (simp add: example_amb_def)
  have busy: "activeRecordings busy_tracker ''room-A'' = Some example_recording"
    by (simp add: busy_tracker_def)
  have by_room: "''room-A'' \<noteq> [] \<and> activeRecordings busy_tracker ''room-A'' =
      Some example_recording \<and> egressId example_recording \<noteq> []"
    by (simp add: busy_tracker_def example_recording_def)
  have by_id: "''EG_old'' \<noteq> [] \<and> (\<not> truthy None \<or>
      activeRecordings busy_tracker (or_else None []) = None)"
    by (simp add: truthy_def)
  note first = stop_resolution [where amb = example_amb and u = "()" and st = busy_tracker
      and r = "''room-A''" and info = example_recording and sid = "Some ''EG_other''",
      rule_format, OF ok, THEN conjunct1, rule_format, OF by_room]
  note second = stop_resolution [where amb = example_amb and u = "()" and st = busy_tracker
      and s = "''EG_old''" and rm = None,
      rule_format, OF ok, THEN conjunct2, rule_format, OF by_id]
  from first have
    "fst (stopRecording example_amb (Some ''room-A'') (Some ''EG_other'') busy_tracker) =
       Inr \<lparr>status = 200,
            body = StoppedBody ''EG_old''
                     (Some ''recordings/room-A/2023-11-14T22-13-20-000Z.ogg'')
                     ''Recording stopped''\<rparr>"
    "egress_requests
         (snd (stopRecording example_amb (Some ''room-A'') (Some ''EG_other'') busy_tracker)) =
       [StopEgress ''EG_old'']"
    "activeRecordings
         (snd (stopRecording example_amb (Some ''room-A'') (Some ''EG_other'') busy_tracker))
         ''room-A'' = None"
    by (auto simp: example_recording_def busy_tracker_def)
  moreover from second have
    "fst (stopRecording example_amb None (Some ''EG_old'') busy_tracker) =
       Inr \<lparr>status = 200, body = StoppedBody ''EG_old'' None ''Recording stopped''\<rparr>"
    "egress_requests (snd (stopRecording example_amb None (Some ''EG_old'') busy_tracker)) =
       [StopEgress ''EG_old'']"
    "activeRecordings (snd (stopRecording example_amb None (Some ''EG_old'') busy_tracker))
         ''room-A'' = Some example_recording"
    by (auto simp: busy_tracker_def)
  ultimately show ?thesis using ok busy by simp
qed

lemma respond_exception:
  "respond (Inl (Error msg), st) =
     (\<lparr>status = 500, body = FailureBody ''Recording operation failed'' msg\<rparr>,
      st\<lparr>console := console st @ [[Text ''Recording error:'', Thrown (Error msg)]]\<rparr>)"
  by (simp add: respond_def)

lemma stopRecording_by_id_fail:
  assumes "\<not> truthy rm \<or> activeRecordings st (or_else rm []) = None"
    and "s \<noteq> []" and "stop_outcome amb = Inl msg"
  shows "stopRecording amb rm (Some s) st =
     (Inl (Error msg), st\<lparr>egress_requests := egress_requests st @ [StopEgress s]\<rparr>)"
proof -
  have tr: "truthy (Some s)" and oe: "or_else (Some s) [] = s"
    using assms(2) by (simp_all add: truthy_def or_else_def)
  show ?thesis
    unfolding stopRecording_def no_record_resolved [OF assms(1)] Let_def
    using assms(3) tr oe by simp
qed

lemma handler_start_failure:
  assumes "start_outcome amb = Inl msg" and "activeRecordings st r = None"
    and "configured env" and "req_method req \<noteq> ''OPTIONS''"
    and "req_action req = Some ''start''" and "req_room req = Some r" and "r \<noteq> []"
  shows "fst (handler env amb req st) =
           \<lparr>status = 500, body = FailureBody ''Recording operation failed'' msg\<rparr>"
    and "activeRecordings (snd (handler env amb req st)) = activeRecordings st"
  unfolding handler_start [OF assms(3-7)] startRecording_idle_fail [OF assms(2,1)]
    respond_exception
  by simp_all

lemma handler_stop_failure:
  assumes "stop_outcome amb = Inl msg" and "r \<noteq> []"
    and "activeRecordings st r = Some info" and "egressId info \<noteq> []"
    and "configured env" and "req_method req \<noteq> ''OPTIONS''"
    and "req_action req = Some ''stop''" and "req_room req = Some r"
  shows "fst (handler env amb req st) =
           \<lparr>status = 500, body = FailureBody ''Recording operation failed'' msg\<rparr>"
    and "activeRecordings (snd (handler env amb req st)) = activeRecordings st"
proof -
  have "truthy (req_room req) \<or> truthy (req_egressId req)"
    using assms(2,8) by (simp add: truthy_def)
  note h = handler_stop [OF assms(5-7) this, of amb st]
  show "fst (handler env amb req st) =
           \<lparr>status = 500, body = FailureBody ''Recording operation failed'' msg\<rparr>"
    and "activeRecordings (snd (handler env amb req st)) = activeRecordings st"
    unfolding h assms(8) stopRecording_room_fail [OF assms(2-4) assms(1)] respond_exception
    by simp_all
qed

text \<open>
  Claim C6. Both operations are atomic with respect to a failure of the egress service. When
  the awaited start call is rejected with message \<open>msg\<close>, the map after \<^verbatim>\<open>start\<close> is the
  map before it, in every state; from a room with no record (the case in which the service
  is called at all) \<^verbatim>\<open>startRecording\<close> throws that error, and the handler answers 500 with
  the message as details. When the awaited stop call is rejected, the map after \<^verbatim>\<open>stop\<close>
  is the map before it, however the session was resolved; \<^verbatim>\<open>stopRecording\<close> throws the
  error, the record of the resolved room is still in the map, and the handler answers 500.
\<close>

theorem failure_leaves_map:
  "(start_outcome amb = Inl msg \<longrightarrow>
      activeRecordings (snd (startRecording env amb r ident st)) = activeRecordings st
      \<and> (activeRecordings st r = None \<longrightarrow>
           fst (startRecording env amb r ident st) = Inl (Error msg))
      \<and> (activeRecordings st r = None \<and> configured env \<and> req_method req \<noteq> ''OPTIONS''
           \<and> req_action req = Some ''start'' \<and> req_room req = Some r \<and> r \<noteq> [] \<longrightarrow>
           fst (handler env amb req st) =
             \<lparr>status = 500, body = FailureBody ''Recording operation failed'' msg\<rparr>
           \<and> activeRecordings (snd (handler env amb req st)) = activeRecordings st))
   \<and> (stop_outcome amb = Inl msg \<longrightarrow>
      activeRecordings (snd (stopRecording amb rm sid st)) = activeRecordings st
      \<and> (r \<noteq> [] \<and> activeRecordings st r = Some info \<and> egressId info \<noteq> [] \<longrightarrow>
           fst (stopRecording amb (Some r) sid st) = Inl (Error msg)
           \<and> activeRecordings (snd (stopRecording amb (Some r) sid st)) r = Some info)
      \<and> (s \<noteq> [] \<and> (\<not> truthy rm \<or> activeRecordings st (or_else rm []) = None) \<longrightarrow>
           fst (stopRecording amb rm (Some s) st) = Inl (Error msg))
      \<and> (r \<noteq> [] \<and> activeRecordings st r = Some info \<and> egressId info \<noteq> []
           \<and> configured env \<and> req_method req \<noteq> ''OPTIONS''
           \<and> req_action req = Some ''stop'' \<and> req_room req = Some r \<longrightarrow>
           fst (handler env amb req st) =
             \<lparr>status = 500, body = FailureBody ''Recording operation failed'' msg\<rparr>
           \<and> activeRecordings (snd (handler env amb req st)) r = Some info))"
proof (intro conjI impI)
  assume "start_outcome amb = Inl msg"
  then show "activeRecordings (snd (startRecording env amb r ident st)) = activeRecordings st"
    by (rule startRecording_map_on_failure)
next
  assume "start_outcome amb = Inl msg" and "activeRecordings st r = None"
  then show "fst (startRecording env amb r ident st) = Inl (Error msg)"
    by (simp add: startRecording_idle_fail)
next
  assume f: "start_outcome amb = Inl msg"
    and h: "activeRecordings st r = None \<and> configured env \<and> req_method req \<noteq> ''OPTIONS''
           \<and> req_action req = Some ''start'' \<and> req_room req = Some r \<and> r \<noteq> []"
  from h have hs: "activeRecordings st r = None" "configured env"
    "req_method req \<noteq> ''OPTIONS''" "req_action req = Some ''start''"
    "req_room req = Some r" "r \<noteq> []"
    by blast+
  show "fst (handler env amb req st) =
             \<lparr>status = 500, body = FailureBody ''Recording operation failed'' msg\<rparr>"
    by (rule handler_start_failure(1) [OF f hs])
  show "activeRecordings (snd (handler env amb req st)) = activeRecordings st"
    by (rule handler_start_failure(2) [OF f hs])
next
  assume "stop_outcome amb = Inl msg"
  then show "activeRecordings (snd (stopRecording amb rm sid st)) = activeRecordings st"
    by (rule stopRecording_map_on_failure)
next
  assume f: "stop_outcome amb = Inl msg"
    and h: "r \<noteq> [] \<and> activeRecordings st r = Some info \<and> egressId info \<noteq> []"
  from h have hs: "r \<noteq> []" "activeRecordings st r = Some info" "egressId info \<noteq> []"
    by blast+
  show "fst (stopRecording amb (Some r) sid st) = Inl (Error msg)"
    by (simp add: stopRecording_room_fail [OF hs f])
  show "activeRecordings (snd (stopRecording amb (Some r) sid st)) r = Some info"
    by (simp add: stopRecording_room_fail [OF hs f] hs(2))
next
  assume f: "stop_outcome amb = Inl msg"
    and h: "s \<noteq> [] \<and> (\<not> truthy rm \<or> activeRecordings st (or_else rm []) = None)"
  from h have hs: "\<not> truthy rm \<or> activeRecordings st (or_else rm []) = None" "s \<noteq> []"
    by simp_all
  show "fst (stopRecording amb rm (Some s) st) = Inl (Error msg)"
    by (simp add: stopRecording_by_id_fail [OF hs f])
next
  assume f: "stop_outcome amb = Inl msg"
    and h: "r \<noteq> [] \<and> activeRecordings st r = Some info \<and> egressId info \<noteq> []
           \<and> configured env \<and> req_method req \<noteq> ''OPTIONS''
           \<and> req_action req = Some ''stop'' \<and> req_room req = Some r"
  from h have hs: "r \<noteq> []" "activeRecordings st r = Some info" "egressId info \<noteq> []"
    "configured env" "req_method req \<noteq> ''OPTIONS''" "req_action req = Some ''stop''"
    "req_room req = Some r"
    by blast+
  show "fst (handler env amb req st) =
             \<lparr>status = 500, body = FailureBody ''Recording operation failed'' msg\<rparr>"
    by (rule handler_stop_failure(1) [OF f hs])
  show "activeRecordings (snd (handler env amb req st)) r = Some info"
    by (simp add: handler_stop_failure(2) [OF f hs] hs(2))
qed

lemma example_env_configured: "configured example_env"
  by (simp add: configured_def example_env_def truthy_def)

theorem failure_leaves_map_witness:
  "start_outcome failing_amb = Inl ''egress unavailable''
   \<and> stop_outcome failing_amb = Inl ''egress unavailable''
   \<and> activeRecordings empty_tracker ''room-A'' = None
   \<and> activeRecordings busy_tracker ''room-A'' = Some example_recording
   \<and> fst (handler example_env failing_amb
             (example_request ''start'' (Some ''room-A'') None) empty_tracker) =
        \<lparr>status = 500,
         body = FailureBody ''Recording operation failed'' ''egress unavailable''\<rparr>
   \<and> activeRecordings (snd (handler example_env failing_amb
             (example_request ''start'' (Some ''room-A'') None) empty_tracker)) ''room-A''
        = None
   \<and> fst (handler example_env failing_amb
             (example_request ''stop'' (Some ''room-A'') None) busy_tracker) =
        \<lparr>status = 500,
         body = FailureBody ''Recording operation failed'' ''egress unavailable''\<rparr>
   \<and> activeRecordings (snd (handler example_env failing_amb
             (example_request ''stop'' (Some ''room-A'') None) busy_tracker)) ''room-A''
        = Some example_recording"
proof -
  have f1: "start_outcome failing_amb = Inl ''egress unavailable''"
    and f2: "stop_outcome failing_amb = Inl ''egress unavailable''"
    by (simp_all add: failing_amb_def)
  have idle: "activeRecordings empty_tracker ''room-A'' = None"
    by (simp add: empty_tracker_def)
  have busy: "activeRecordings busy_tracker ''room-A'' = Some example_recording"
    by (simp add: busy_tracker_def)
  have h1: "activeRecordings empty_tracker ''room-A'' = None \<and> configured example_env
      \<and> req_method (example_request ''start'' (Some ''room-A'') None) \<noteq> ''OPTIONS''
      \<and> req_action (example_request ''start'' (Some ''room-A'') None) = Some ''start''
      \<and> req_room (example_request ''start'' (Some ''room-A'') None) = Some ''room-A''
      \<and> ''room-A'' \<noteq> []"
    by (simp add: idle example_env_configured example_request_def)
  have h2: "''room-A'' \<noteq> [] \<and> activeRecordings busy_tracker ''room-A'' = Some example_recording
      \<and> egressId example_recording \<noteq> [] \<and> configured example_env
      \<and> req_method (example_request ''stop'' (Some ''room-A'') None) \<noteq> ''OPTIONS''
      \<and> req_action (example_request ''stop'' (Some ''room-A'') None) = Some ''stop''
      \<and> req_room (example_request ''stop'' (Some ''room-A'') None) = Some ''room-A''"
    by (simp add: busy example_env_configured example_request_def example_recording_def)
  note a = failure_leaves_map [where amb = failing_amb and msg = "''egress unavailable''"
      and env = example_env and r = "''room-A''" and st = empty_tracker
      and req = "example_request ''start'' (Some ''room-A'') None",
      THEN conjunct1, rule_format, OF f1, THEN conjunct2, THEN conjunct2, rule_format, OF h1]
  note b = failure_leaves_map [where amb = failing_amb and msg = "''egress unavailable''"
      and env = example_env and r = "''room-A''" and st = busy_tracker
      and info = example_recording
      and req = "example_request ''stop'' (Some ''room-A'') None",
      THEN conjunct2, rule_format, OF f2, THEN conjunct2, THEN conjunct2, THEN conjunct2,
      rule_format, OF h2]
  from a b f1 f2 idle busy show ?thesis by simp
qed

lemma room_state_Idle: "room_state st r = Idle \<longleftrightarrow> activeRecordings st r = None"
  by (simp add: room_state_def split: option.split)

lemma room_state_Recording:
  "room_state st r = Recording \<longleftrightarrow> (\<exists>info. activeRecordings st r = Some info)"
  by (simp add: room_state_def split: option.split)

lemma start_transition:
  assumes "room_state st r = Idle" and "start_outcome amb = Inr eid"
  shows "\<exists>res st'. startRecording env amb r ident st = (Inr res, st') \<and> status res = 200
           \<and> room_state st' r = Recording
           \<and> map_option egressId (activeRecordings st' r) = Some eid
           \<and> (\<forall>r'. r' \<noteq> r \<longrightarrow> activeRecordings st' r' = activeRecordings st r')"
proof -
  from assms(1) have idle: "activeRecordings st r = None"
    by (simp add: room_state_Idle)
  show ?thesis
    unfolding startRecording_idle_ok [OF idle assms(2)]
    by (simp add: room_state_def)
qed

lemma stop_transition:
  assumes "r \<noteq> []" and "activeRecordings st r = Some info" and "egressId info \<noteq> []"
    and "stop_outcome amb = Inr u"
  shows "\<exists>res st'. stopRecording amb (Some r) sid st = (Inr res, st') \<and> status res = 200
           \<and> room_state st' r = Idle
           \<and> (\<forall>r'. r' \<noteq> r \<longrightarrow> activeRecordings st' r' = activeRecordings st r')"
  unfolding stopRecording_room_ok [OF assms]
  by (simp add: room_state_def)

lemma start_self_loop:
  assumes "room_state st r = Recording"
  shows "\<exists>res. startRecording env amb r ident st = (Inr res, st) \<and> status res = 409"
proof -
  from assms obtain info where "activeRecordings st r = Some info"
    by (auto simp: room_state_Recording)
  then show ?thesis by (simp add: startRecording_busy)
qed

lemma stop_idle:
  assumes "room_state st r = Idle" and "\<not> truthy sid"
  shows "\<exists>res. stopRecording amb (Some r) sid st = (Inr res, st) \<and> status res = 404"
proof -
  from assms(1) have "\<not> truthy (Some r) \<or> activeRecordings st (or_else (Some r) []) = None"
    by (simp add: room_state_Idle truthy_def or_else_def)
  from stopRecording_not_found [OF this assms(2)] show ?thesis by simp
qed

lemma start_then_stop:
  assumes "room_state st r = Idle" and "r \<noteq> []" and "start_outcome amb1 = Inr eid"
    and "eid \<noteq> []" and "stop_outcome amb2 = Inr u"
  shows "\<exists>res1 st1 res2 st2.
           startRecording env amb1 r ident st = (Inr res1, st1) \<and> status res1 = 200
           \<and> stopRecording amb2 (Some r) None st1 = (Inr res2, st2) \<and> status res2 = 200
           \<and> room_state st2 r = Idle
           \<and> getRecordingStatus r st2 = \<lparr>status = 200, body = StatusBody False None\<rparr>"
proof -
  from start_transition [OF assms(1,3), of env ident]
  obtain res1 st1 where 1: "startRecording env amb1 r ident st = (Inr res1, st1)"
    "status res1 = 200" "map_option egressId (activeRecordings st1 r) = Some eid"
    by blast
  from 1(3) obtain info where info: "activeRecordings st1 r = Some info" "egressId info = eid"
    by auto
  with assms(4) have "egressId info \<noteq> []" by simp
  from stop_transition [OF assms(2) info(1) this assms(5), of None]
  obtain res2 st2 where 2: "stopRecording amb2 (Some r) None st1 = (Inr res2, st2)"
    "status res2 = 200" "room_state st2 r = Idle"
    by blast
  from 2(3) have "getRecordingStatus r st2 = \<lparr>status = 200, body = StatusBody False None\<rparr>"
    by (simp add: room_state_Idle getRecordingStatus_idle)
  with 1 2 show ?thesis by blast
qed



text \<open>
  Without the last sentence the scenario fails. The egress service is outside the function,
  and a \<^verbatim>\<open>start\<close> it accepts with the empty string as session id answers 200 and stores
  the record; \<^verbatim>\<open>stop\<close> of that room then resolves the empty id, which
  \<^verbatim>\<open>if (!targetEgressId)\<close> takes for none: it answers 404, the record stays, and
  \<^verbatim>\<open>status\<close> goes on reporting \<^verbatim>\<open>isRecording: true\<close>.
\<close>

lemma start_blank_id:
  "startRecording example_env blank_id_amb ''room-A'' (Some ''alice'') empty_tracker =
     (Inr blank_id_result, blank_id_tracker)"
proof -
  have idle: "activeRecordings empty_tracker ''room-A'' = None"
    by (simp add: empty_tracker_def)
  have ok: "start_outcome blank_id_amb = Inr []"
    by (simp add: blank_id_amb_def)
  have clocks: "clock_first blank_id_amb = 1700000000000"
    "clock_second blank_id_amb = 1700000000250"
    by (simp_all add: blank_id_amb_def)
  show ?thesis
    unfolding startRecording_idle_ok [OF idle ok] clocks spec_output_path_example
      toISOString_example'
    by (simp add: example_env_def empty_tracker_def blank_id_result_def
        blank_id_tracker_def or_else_def)
qed

lemma stop_blank_id:
  "stopRecording blank_id_amb (Some ''room-A'') None blank_id_tracker =
     (Inr \<lparr>status = 404, body = ErrorBody ''No active recording found for this room''\<rparr>,
      blank_id_tracker)"
  by (simp add: stopRecording_def blank_id_tracker_def truthy_def)


text \<open>
  Claim C8. \<^verbatim>\<open>status(room)\<close> is a lookup. A request with action \<^verbatim>\<open>status\<close> returns the
  process state as it was (map, requests to the egress service and console), whatever the
  rest of the request; for a configured server and a non-empty room the answer is that of
  \<^verbatim>\<open>getRecordingStatus\<close>. With no record for the room the body is \<^verbatim>\<open>isRecording: false\<close>
  and nothing else; with a record it is \<^verbatim>\<open>isRecording: true\<close> with the stored session id,
  starter and start time. After a \<^verbatim>\<open>start\<close> the service accepted with session id \<open>eid\<close>,
  which \<^verbatim>\<open>start\<close> returned, \<^verbatim>\<open>status\<close> reports that same \<open>eid\<close>.
\<close>

theorem status_lookup:
  "(req_action req = Some ''status'' \<longrightarrow> snd (handler env amb req st) = st)
   \<and> (configured env \<and> req_method req \<noteq> ''OPTIONS'' \<and> req_action req = Some ''status''
        \<and> req_room req = Some r \<and> r \<noteq> [] \<longrightarrow>
        handler env amb req st = (getRecordingStatus r st, st))
   \<and> (activeRecordings st r = None \<longrightarrow>
        getRecordingStatus r st = \<lparr>status = 200, body = StatusBody False None\<rparr>)
   \<and> (activeRecordings st r = Some info \<longrightarrow>
        getRecordingStatus r st =
          \<lparr>status = 200,
           body = StatusBody True (Some (egressId info, startedBy info, startedAt info))\<rparr>)
   \<and> (activeRecordings st r = None \<and> start_outcome amb = Inr eid \<longrightarrow>
        (\<exists>path st'. startRecording env amb r ident st =
             (Inr \<lparr>status = 200, body = StartedBody eid path ''Recording started''\<rparr>, st')
           \<and> getRecordingStatus r st' =
               \<lparr>status = 200,
                body = StatusBody True
                  (Some (eid, or_else ident ''unknown'', toISOString (clock_second amb)))\<rparr>))"
proof (intro conjI impI)
  assume "req_action req = Some ''status''"
  then show "snd (handler env amb req st) = st"
    by (rule handler_status_frame)
next
  assume "configured env \<and> req_method req \<noteq> ''OPTIONS'' \<and> req_action req = Some ''status''
        \<and> req_room req = Some r \<and> r \<noteq> []"
  then have "configured env" "req_method req \<noteq> ''OPTIONS''" "req_action req = Some ''status''"
    "req_room req = Some r" "r \<noteq> []" by simp_all
  then show "handler env amb req st = (getRecordingStatus r st, st)"
    by (rule handler_status)
next
  assume "activeRecordings st r = None"
  then show "getRecordingStatus r st = \<lparr>status = 200, body = StatusBody False None\<rparr>"
    by (rule getRecordingStatus_idle)
next
  assume "activeRecordings st r = Some info"
  then show "getRecordingStatus r st =
          \<lparr>status = 200,
           body = StatusBody True (Some (egressId info, startedBy info, startedAt info))\<rparr>"
    by (rule getRecordingStatus_recording)
next
  assume "activeRecordings st r = None \<and> start_outcome amb = Inr eid"
  then have idle: "activeRecordings st r = None" and ok: "start_outcome amb = Inr eid"
    by simp_all
  show "\<exists>path st'. startRecording env amb r ident st =
             (Inr \<lparr>status = 200, body = StartedBody eid path ''Recording started''\<rparr>, st')
           \<and> getRecordingStatus r st' =
               \<lparr>status = 200,
                body = StatusBody True
                  (Some (eid, or_else ident ''unknown'', toISOString (clock_second amb)))\<rparr>"
    unfolding startRecording_idle_ok [OF idle ok]
    by (simp add: getRecordingStatus_def)
qed

theorem status_lookup_witness:
  "req_action (example_request ''status'' (Some ''room-A'') None) = Some ''status''
   \<and> handler example_env example_amb (example_request ''status'' (Some ''room-A'') None)
        empty_tracker =
       (\<lparr>status = 200, body = StatusBody False None\<rparr>, empty_tracker)
   \<and> handler example_env example_amb (example_request ''status'' (Some ''room-A'') None)
        busy_tracker =
       (\<lparr>status = 200,
         body = StatusBody True
                  (Some (''EG_old'', ''dr-who'', ''2023-11-14T22:13:20.000Z''))\<rparr>,
        busy_tracker)
   \<and> handler example_env example_amb (example_request ''status'' (Some ''room-A'') None)
        started_tracker =
       (\<lparr>status = 200,
         body = StatusBody True
                  (Some (''EG_abc123'', ''alice'', ''2023-11-14T22:13:20.250Z''))\<rparr>,
        started_tracker)"
proof -
  let ?req = "example_request ''status'' (Some ''room-A'') None"
  have h: "configured example_env \<and> req_method ?req \<noteq> ''OPTIONS''
      \<and> req_action ?req = Some ''status'' \<and> req_room ?req = Some ''room-A''
      \<and> ''room-A'' \<noteq> []"
    by (simp add: example_env_configured example_request_def)
  have idle: "activeRecordings empty_tracker ''room-A'' = None"
    by (simp add: empty_tracker_def)
  have busy: "activeRecordings busy_tracker ''room-A'' = Some example_recording"
    by (simp add: busy_tracker_def)
  have started: "activeRecordings started_tracker ''room-A'' =
      Some \<lparr>egressId = ''EG_abc123'', startedBy = ''alice'',
            startedAt = ''2023-11-14T22:13:20.250Z'',
            filepath = ''recordings/room-A/2023-11-14T22-13-20-000Z.ogg''\<rparr>"
    by (simp add: started_tracker_def)
  note at = status_lookup [where req = ?req and env = example_env and amb = example_amb
      and r = "''room-A''", THEN conjunct2, THEN conjunct1, rule_format, OF h]
  note none = status_lookup [where st = empty_tracker and r = "''room-A''",
      THEN conjunct2, THEN conjunct2, THEN conjunct1, rule_format, OF idle]
  note some1 = status_lookup [where st = busy_tracker and r = "''room-A''",
      THEN conjunct2, THEN conjunct2, THEN conjunct2, THEN conjunct1, rule_format, OF busy]
  note some2 = status_lookup [where st = started_tracker and r = "''room-A''",
      THEN conjunct2, THEN conjunct2, THEN conjunct2, THEN conjunct1, rule_format, OF started]
  have "req_action ?req = Some ''status''"
    by (simp add: example_request_def)
  moreover have "handler example_env example_amb ?req empty_tracker =
       (\<lparr>status = 200, body = StatusBody False None\<rparr>, empty_tracker)"
    unfolding at none by (rule refl)
  moreover have "handler example_env example_amb ?req busy_tracker =
       (\<lparr>status = 200,
         body = StatusBody True
                  (Some (''EG_old'', ''dr-who'', ''2023-11-14T22:13:20.000Z''))\<rparr>,
        busy_tracker)"
    unfolding at some1 by (simp add: example_recording_def)
  moreover have "handler example_env example_amb ?req started_tracker =
       (\<lparr>status = 200,
         body = StatusBody True
                  (Some (''EG_abc123'', ''alice'', ''2023-11-14T22:13:20.250Z''))\<rparr>,
        started_tracker)"
    unfolding at some2 by simp
  ultimately show ?thesis by simp
qed

lemma slash_not_in_stamp:
  "CHR ''/'' \<notin> set (map (\<lambda>c. if c = CHR '':'' \<or> c = CHR ''.'' then CHR ''-'' else c)
                        (toISOString t) @ ''.ogg'')"
  using slash_not_in_iso [of t] by auto

lemma spec_output_path_segments:
  "split_on CHR ''/'' (spec_output_path r t) =
     ''recordings'' # split_on CHR ''/'' r @
       [map (\<lambda>c. if c = CHR '':'' \<or> c = CHR ''.'' then CHR ''-'' else c) (toISOString t)
          @ ''.ogg'']"
proof -
  let ?file = "map (\<lambda>c. if c = CHR '':'' \<or> c = CHR ''.'' then CHR ''-'' else c)
                 (toISOString t) @ ''.ogg''"
  have "spec_output_path r t = ''recordings'' @ CHR ''/'' # (r @ CHR ''/'' # ?file)"
    by (simp add: spec_output_path_def)
  then have "split_on CHR ''/'' (spec_output_path r t) =
      split_on CHR ''/'' ''recordings'' @ split_on CHR ''/'' r @ split_on CHR ''/'' ?file"
    by (simp only: split_on_append)
  moreover have "split_on CHR ''/'' ''recordings'' = [''recordings'']"
    by (rule split_on_absent) simp
  moreover have "split_on CHR ''/'' ?file = [?file]"
    by (rule split_on_absent) (rule slash_not_in_stamp)
  ultimately show ?thesis by simp
qed

text \<open>
  Claim C10. A \<^verbatim>\<open>start\<close> the service accepts answers with the output path
  \<^verbatim>\<open>'recordings/' + room + '/' + s + '.ogg'\<close>, where \<open>s\<close> is the ISO-8601 rendering of the
  clock as read before the call to the service, with every \<^verbatim>\<open>:\<close> and \<^verbatim>\<open>.\<close> replaced by
  \<^verbatim>\<open>-\<close>; the same path is stored in the record and sent to the egress service. The room is
  put into the path as it is: split at \<^verbatim>\<open>/\<close>, the path is \<^verbatim>\<open>recordings\<close>, then the
  \<^verbatim>\<open>/\<close>-segments of the room string one by one, then the file name. So a room with a \<^verbatim>\<open>/\<close>
  in it gives a path of at least four segments, where a plain room name gives three, and
  the extra directory segments (a \<^verbatim>\<open>..\<close>, say) are the caller's.
\<close>

theorem output_path_unsanitised:
  "(activeRecordings st r = None \<and> start_outcome amb = Inr eid \<longrightarrow>
      (\<exists>st' output.
          startRecording env amb r ident st =
            (Inr \<lparr>status = 200,
                  body = StartedBody eid (spec_output_path r (clock_first amb))
                           ''Recording started''\<rparr>, st')
        \<and> map_option filepath (activeRecordings st' r) =
            Some (spec_output_path r (clock_first amb))
        \<and> egress_requests st' = egress_requests st @ [StartRoomCompositeEgress r output]
        \<and> out_filepath output = spec_output_path r (clock_first amb)))
   \<and> split_on CHR ''/'' (spec_output_path r t) =
       ''recordings'' # split_on CHR ''/'' r @
         [map (\<lambda>c. if c = CHR '':'' \<or> c = CHR ''.'' then CHR ''-'' else c) (toISOString t)
            @ ''.ogg'']
   \<and> (CHR ''/'' \<in> set r \<longrightarrow> 4 \<le> length (split_on CHR ''/'' (spec_output_path r t)))"
proof (intro conjI impI)
  assume "activeRecordings st r = None \<and> start_outcome amb = Inr eid"
  then have idle: "activeRecordings st r = None" and ok: "start_outcome amb = Inr eid"
    by simp_all
  show "\<exists>st' output.
          startRecording env amb r ident st =
            (Inr \<lparr>status = 200,
                  body = StartedBody eid (spec_output_path r (clock_first amb))
                           ''Recording started''\<rparr>, st')
        \<and> map_option filepath (activeRecordings st' r) =
            Some (spec_output_path r (clock_first amb))
        \<and> egress_requests st' = egress_requests st @ [StartRoomCompositeEgress r output]
        \<and> out_filepath output = spec_output_path r (clock_first amb)"
    unfolding startRecording_idle_ok [OF idle ok]
    by simp
next
  show "split_on CHR ''/'' (spec_output_path r t) =
       ''recordings'' # split_on CHR ''/'' r @
         [map (\<lambda>c. if c = CHR '':'' \<or> c = CHR ''.'' then CHR ''-'' else c) (toISOString t)
            @ ''.ogg'']"
    by (rule spec_output_path_segments)
next
  assume "CHR ''/'' \<in> set r"
  then have "2 \<le> length (split_on CHR ''/'' r)"
    by (rule split_on_present)
  then show "4 \<le> length (split_on CHR ''/'' (spec_output_path r t))"
    by (simp add: spec_output_path_segments)
qed

lemma spec_output_path_example2:
  "spec_output_path ''../x'' 1700000000000 =
     ''recordings/../x/2023-11-14T22-13-20-000Z.ogg''"
  by (simp add: spec_output_path_def toISOString_example)

theorem output_path_unsanitised_witness:
  "activeRecordings empty_tracker ''../x'' = None
   \<and> start_outcome example_amb = Inr ''EG_abc123''
   \<and> CHR ''/'' \<in> set ''../x''
   \<and> fst (startRecording example_env example_amb ''../x'' None empty_tracker) =
       Inr \<lparr>status = 200,
            body = StartedBody ''EG_abc123''
                     ''recordings/../x/2023-11-14T22-13-20-000Z.ogg''
                     ''Recording started''\<rparr>
   \<and> split_on CHR ''/'' ''recordings/../x/2023-11-14T22-13-20-000Z.ogg'' =
       [''recordings'', ''..'', ''x'', ''2023-11-14T22-13-20-000Z.ogg'']
   \<and> 4 \<le> length (split_on CHR ''/'' ''recordings/../x/2023-11-14T22-13-20-000Z.ogg'')"
proof -
  have idle: "activeRecordings empty_tracker ''../x'' = None"
    by (simp add: empty_tracker_def)
  have ok: "start_outcome example_amb = Inr ''EG_abc123''"
    by (simp add: example_amb_def)
  have clock: "clock_first example_amb = 1700000000000"
    by (simp add: example_amb_def)
  have slash: "CHR ''/'' \<in> set ''../x''"
    by simp
  note inst = output_path_unsanitised [where st = empty_tracker and r = "''../x''"
      and amb = example_amb and eid = "''EG_abc123''" and env = example_env
      and ident = None and t = 1700000000000]
  from inst [THEN conjunct1, rule_format, OF conjI [OF idle ok]]
  have "fst (startRecording example_env example_amb ''../x'' None empty_tracker) =
       Inr \<lparr>status = 200,
            body = StartedBody ''EG_abc123''
                     ''recordings/../x/2023-11-14T22-13-20-000Z.ogg''
                     ''Recording started''\<rparr>"
    unfolding clock spec_output_path_example2 by auto
  moreover from inst [THEN conjunct2, THEN conjunct1]
  have "split_on CHR ''/'' ''recordings/../x/2023-11-14T22-13-20-000Z.ogg'' =
       [''recordings'', ''..'', ''x'', ''2023-11-14T22-13-20-000Z.ogg'']"
    unfolding spec_output_path_example2 toISOString_example by simp
  moreover from inst [THEN conjunct2, THEN conjunct2, rule_format, OF slash]
  have "4 \<le> length (split_on CHR ''/'' ''recordings/../x/2023-11-14T22-13-20-000Z.ogg'')"
    unfolding spec_output_path_example2 .
  ultimately show ?thesis using idle ok slash by simp
qed

section \<open>Properties of the token function\<close>

subsection \<open>Base64\<close>

lemma of_char_less_256: "(of_char c :: nat) < 256"
proof -
  have "(of_char c :: nat) mod 256 < 256" by (rule mod_less_divisor) simp
  then show ?thesis by simp
qed

lemma url_safe_filter_map: "url_safe s = filter (\<lambda>c. c \<noteq> CHR ''='') (map url_subst s)"
  by (induction s) (simp_all add: url_safe_def replace_all_def url_subst_def)

lemma url_safe_append: "url_safe (xs @ ys) = url_safe xs @ url_safe ys"
  by (simp add: url_safe_filter_map)

lemma base64url_alphabet_subst: "base64url_alphabet = map url_subst base64_alphabet"
  by (simp add: base64url_alphabet_def base64_alphabet_def url_subst_def)

lemma length_base64_alphabet: "length base64_alphabet = 64"
  by (simp add: base64_alphabet_def)

lemma length_base64url_alphabet: "length base64url_alphabet = 64"
  by (simp add: base64url_alphabet_def)

lemma url_subst_b64_char: "i < 64 \<Longrightarrow> url_subst (b64_char i) = url_char i"
  by (simp add: b64_char_def url_char_def base64url_alphabet_subst length_base64_alphabet)

lemma url_char_in: "i < 64 \<Longrightarrow> url_char i \<in> set base64url_alphabet"
  unfolding url_char_def by (rule nth_mem) (simp add: length_base64url_alphabet)

lemma pad_not_in_alphabet: "CHR ''='' \<notin> set base64url_alphabet"
  by (simp add: base64url_alphabet_def)

lemma dot_not_in_alphabet: "CHR ''.'' \<notin> set base64url_alphabet"
  by (simp add: base64url_alphabet_def)

lemma url_char_not_pad: "i < 64 \<Longrightarrow> url_char i \<noteq> CHR ''=''"
  using url_char_in [of i] pad_not_in_alphabet by auto

lemma url_safe_b64_char: "i < 64 \<Longrightarrow> url_safe (b64_char i # s) = url_char i # url_safe s"
  by (simp add: url_safe_filter_map url_subst_b64_char url_char_not_pad)

lemma url_safe_pad: "url_safe (CHR ''='' # s) = url_safe s"
  by (simp add: url_safe_filter_map url_subst_def)

lemma group_bound:
  fixes a q :: nat
  shows "a < 4 \<Longrightarrow> q < 16 \<Longrightarrow> a * 16 + q < 64"
    and "a < 16 \<Longrightarrow> q < 4 \<Longrightarrow> a * 4 + q < 64"
    and "a < 4 \<Longrightarrow> a * 16 < 64"
    and "a < 16 \<Longrightarrow> a * 4 < 64"
  by simp_all

lemma group_div_mod:
  fixes a q m :: nat
  assumes "q < m"
  shows "(a * m + q) div m = a" and "(a * m + q) mod m = q"
  using assms by simp_all

lemma top_bits:
  "(of_char c :: nat) div 4 < 64" "(of_char c :: nat) div 16 < 16"
  "(of_char c :: nat) div 64 < 4"
  using of_char_less_256 [of c] by (simp_all add: less_mult_imp_div_less)

lemma low_bits:
  "(of_char c :: nat) mod 4 < 4" "(of_char c :: nat) mod 16 < 16"
  "(of_char c :: nat) mod 64 < 64"
  by simp_all

lemma sextet_bounds:
  "(of_char a :: nat) div 4 < 64"
  "(of_char a :: nat) mod 4 * 16 + of_char b div 16 < 64"
  "(of_char b :: nat) mod 16 * 4 + of_char c div 64 < 64"
  "(of_char c :: nat) mod 64 < 64"
  "(of_char a :: nat) mod 4 * 16 < 64"
  "(of_char b :: nat) mod 16 * 4 < 64"
proof -
  show "(of_char a :: nat) div 4 < 64" by (rule top_bits)
  show "(of_char a :: nat) mod 4 * 16 + of_char b div 16 < 64"
    by (rule group_bound(1) [OF low_bits(1) top_bits(2)])
  show "(of_char b :: nat) mod 16 * 4 + of_char c div 64 < 64"
    by (rule group_bound(2) [OF low_bits(2) top_bits(3)])
  show "(of_char c :: nat) mod 64 < 64" by (rule low_bits)
  show "(of_char a :: nat) mod 4 * 16 < 64" by (rule group_bound(3) [OF low_bits(1)])
  show "(of_char b :: nat) mod 16 * 4 < 64" by (rule group_bound(4) [OF low_bits(2)])
qed

text \<open>The encoder, group by group, in the URL-safe alphabet.\<close>

lemma base64UrlEncode_Nil: "base64UrlEncode [] = []"
  by (simp add: base64UrlEncode_def url_safe_def replace_all_def)

lemma base64UrlEncode_one:
  "base64UrlEncode [a] = [url_char (of_char a div 4), url_char (of_char a mod 4 * 16)]"
  by (simp add: base64UrlEncode_def url_safe_b64_char url_safe_pad sextet_bounds)
     (simp add: url_safe_def replace_all_def)

lemma base64UrlEncode_two:
  "base64UrlEncode [a, b] =
     [url_char (of_char a div 4), url_char (of_char a mod 4 * 16 + of_char b div 16),
      url_char (of_char b mod 16 * 4)]"
  by (simp add: base64UrlEncode_def url_safe_b64_char url_safe_pad sextet_bounds)
     (simp add: url_safe_def replace_all_def)

lemma base64UrlEncode_three:
  "base64UrlEncode (a # b # c # rest) =
     url_char (of_char a div 4) # url_char (of_char a mod 4 * 16 + of_char b div 16)
     # url_char (of_char b mod 16 * 4 + of_char c div 64) # url_char (of_char c mod 64)
     # base64UrlEncode rest"
  by (simp add: base64UrlEncode_def url_safe_b64_char sextet_bounds)

lemmas base64UrlEncode_groups =
  base64UrlEncode_Nil base64UrlEncode_one base64UrlEncode_two base64UrlEncode_three

lemma base64UrlEncode_alphabet: "set (base64UrlEncode s) \<subseteq> set base64url_alphabet"
proof (induction s rule: base64.induct)
  case 1
  show ?case by (simp add: base64UrlEncode_groups)
next
  case (2 a)
  show ?case
    by (simp add: base64UrlEncode_groups url_char_in sextet_bounds)
next
  case (3 a b)
  show ?case
    by (simp add: base64UrlEncode_groups url_char_in sextet_bounds)
next
  case (4 a b c rest)
  then show ?case
    by (simp add: base64UrlEncode_groups url_char_in sextet_bounds)
qed

lemma base64UrlEncode_empty_iff: "base64UrlEncode s = [] \<longleftrightarrow> s = []"
  by (cases s rule: base64.cases) (simp_all add: base64UrlEncode_groups)

lemma dot_not_in_base64UrlEncode: "CHR ''.'' \<notin> set (base64UrlEncode s)"
  using base64UrlEncode_alphabet [of s] dot_not_in_alphabet by auto

text \<open>Decoding undoes encoding.\<close>

lemma distinct_base64url_alphabet: "distinct base64url_alphabet"
  by (simp add: base64url_alphabet_def)

lemma index_of_nth: "distinct xs \<Longrightarrow> i < length xs \<Longrightarrow> index_of (xs ! i) xs = Some i"
proof (induction xs arbitrary: i)
  case Nil
  then show ?case by simp
next
  case (Cons x xs)
  show ?case
  proof (cases i)
    case 0
    then show ?thesis by simp
  next
    case (Suc k)
    with Cons.prems have "xs ! k \<in> set xs" "x \<notin> set xs" "k < length xs" "distinct xs"
      by simp_all
    then have "xs ! k \<noteq> x" by auto
    with Suc Cons.IH [of k] \<open>distinct xs\<close> \<open>k < length xs\<close> show ?thesis by simp
  qed
qed

lemma sextet_url_char: "i < 64 \<Longrightarrow> sextet (url_char i) = Some i"
  unfolding sextet_def url_char_def
  by (rule index_of_nth [OF distinct_base64url_alphabet]) (simp add: length_base64url_alphabet)

lemma regroup:
  "(of_char a :: nat) div 4 * 4 + (of_char a mod 4 * 16 + of_char b div 16) div 16 = of_char a"
  "((of_char a :: nat) mod 4 * 16 + of_char b div 16) mod 16 * 16
     + (of_char b mod 16 * 4 + of_char c div 64) div 4 = of_char b"
  "((of_char b :: nat) mod 16 * 4 + of_char c div 64) mod 4 * 64 + of_char c mod 64 = of_char c"
  "(of_char a :: nat) div 4 * 4 + (of_char a mod 4 * 16) div 16 = of_char a"
  "((of_char a :: nat) mod 4 * 16 + of_char b div 16) mod 16 * 16
     + (of_char b mod 16 * 4) div 4 = of_char b"
proof -
  have d1: "((of_char a :: nat) mod 4 * 16 + of_char b div 16) div 16 = of_char a mod 4"
    and m1: "((of_char a :: nat) mod 4 * 16 + of_char b div 16) mod 16 = of_char b div 16"
    by (rule group_div_mod [OF top_bits(2)])+
  have d2: "((of_char b :: nat) mod 16 * 4 + of_char c div 64) div 4 = of_char b mod 16"
    and m2: "((of_char b :: nat) mod 16 * 4 + of_char c div 64) mod 4 = of_char c div 64"
    by (rule group_div_mod [OF top_bits(3)])+
  show "(of_char a :: nat) div 4 * 4 + (of_char a mod 4 * 16 + of_char b div 16) div 16
      = of_char a"
    unfolding d1 by (rule div_mult_mod_eq)
  show "((of_char a :: nat) mod 4 * 16 + of_char b div 16) mod 16 * 16
     + (of_char b mod 16 * 4 + of_char c div 64) div 4 = of_char b"
    unfolding m1 d2 by (rule div_mult_mod_eq)
  show "((of_char b :: nat) mod 16 * 4 + of_char c div 64) mod 4 * 64 + of_char c mod 64
      = of_char c"
    unfolding m2 by (rule div_mult_mod_eq)
  have "((of_char a :: nat) mod 4 * 16) div 16 = of_char a mod 4"
    by simp
  then show "(of_char a :: nat) div 4 * 4 + (of_char a mod 4 * 16) div 16 = of_char a"
    by (simp only: div_mult_mod_eq)
  have "((of_char b :: nat) mod 16 * 4) div 4 = of_char b mod 16"
    by simp
  then show "((of_char a :: nat) mod 4 * 16 + of_char b div 16) mod 16 * 16
     + (of_char b mod 16 * 4) div 4 = of_char b"
    unfolding m1 by (simp only: div_mult_mod_eq)
qed

lemma decode_bytes:
  "char_of ((of_char a :: nat) div 4 * 4 + (of_char a mod 4 * 16 + of_char b div 16) div 16) = a"
  "char_of (((of_char a :: nat) mod 4 * 16 + of_char b div 16) mod 16 * 16
     + (of_char b mod 16 * 4 + of_char c div 64) div 4) = b"
  "char_of (((of_char b :: nat) mod 16 * 4 + of_char c div 64) mod 4 * 64 + of_char c mod 64) = c"
  "char_of ((of_char a :: nat) div 4 * 4 + (of_char a mod 4 * 16) div 16) = a"
  "char_of (((of_char a :: nat) mod 4 * 16 + of_char b div 16) mod 16 * 16
     + (of_char b mod 16 * 4) div 4) = b"
  unfolding regroup by (rule char_of_char)+

lemma base64UrlDecode_encode: "base64UrlDecode (base64UrlEncode s) = Some s"
proof (induction s rule: base64.induct)
  case 1
  show ?case by (simp add: base64UrlEncode_groups)
next
  case (2 a)
  show ?case
    unfolding base64UrlEncode_groups base64UrlDecode.simps
    by (simp only: sextet_url_char sextet_bounds bind.simps decode_bytes)
next
  case (3 a b)
  show ?case
    unfolding base64UrlEncode_groups base64UrlDecode.simps
    by (simp only: sextet_url_char sextet_bounds bind.simps decode_bytes)
next
  case (4 a b c rest)
  show ?case
    unfolding base64UrlEncode_groups base64UrlDecode.simps
    by (simp only: sextet_url_char sextet_bounds bind.simps decode_bytes "4.IH")
qed

lemma base64UrlEncode_inject: "base64UrlEncode s = base64UrlEncode t \<longleftrightarrow> s = t"
proof
  assume "base64UrlEncode s = base64UrlEncode t"
  then have "base64UrlDecode (base64UrlEncode s) = base64UrlDecode (base64UrlEncode t)"
    by simp
  then show "s = t" by (simp add: base64UrlDecode_encode)
qed simp

subsection \<open>The digest\<close>

lemma length_sha256_round: "length (sha256_round s kw) = length s"
  by (simp add: sha256_round_def split: list.splits)

lemma length_foldl_sha256_round: "length (foldl sha256_round s xs) = length s"
  by (induction xs arbitrary: s) (simp_all add: length_sha256_round)

lemma length_sha256_compress: "length (sha256_compress hs block) = length hs"
  by (simp add: sha256_compress_def length_foldl_sha256_round)

lemma length_sha256_blocks: "length (sha256_blocks n hs m) = length hs"
  by (induction n arbitrary: hs m) (simp_all add: length_sha256_compress)

lemma length_concat_word_bytes: "length (concat (map word_bytes ws)) = 4 * length ws"
  by (induction ws) (simp_all add: word_bytes_def)

lemma length_sha256: "length (sha256 msg) = 32"
  by (simp add: sha256_def length_concat_word_bytes length_sha256_blocks H256_def)

lemma hmac_sha256_nonempty: "hmac_sha256 key msg \<noteq> []"
proof -
  have "length (hmac_sha256 key msg) = 32"
    by (simp add: hmac_sha256_def length_sha256)
  then show ?thesis by auto
qed

subsection \<open>The three segments\<close>

lemma createToken_segments:
  assumes "LIVEKIT_API_SECRET env = Some secret"
  shows "createToken env date_now ident roomName =
     Inr (base64UrlEncode (stringify header) @ ''.''
          @ base64UrlEncode
              (stringify (payload (LIVEKIT_API_KEY env) (date_now div 1000) ident roomName))
          @ ''.''
          @ base64UrlEncode
              (hmac_sha256 secret
                 (base64UrlEncode (stringify header) @ ''.''
                  @ base64UrlEncode
                      (stringify
                         (payload (LIVEKIT_API_KEY env) (date_now div 1000) ident roomName)))))"
  using assms by (simp add: createToken_def Let_def base64UrlEncode_def)

lemma split_three:
  assumes "c \<notin> set h" and "c \<notin> set p" and "c \<notin> set sg"
  shows "split_on c (h @ [c] @ p @ [c] @ sg) = [h, p, sg]"
proof -
  have "split_on c (h @ c # (p @ c # sg)) = split_on c h @ split_on c p @ split_on c sg"
    by (simp only: split_on_append)
  with assms show ?thesis by (simp add: split_on_absent)
qed

lemma count_three:
  assumes "c \<notin> set h" and "c \<notin> set p" and "c \<notin> set sg"
  shows "length (filter (\<lambda>x. x = c) (h @ [c] @ p @ [c] @ sg)) = 2"
proof -
  have "filter (\<lambda>x. x = c) h = []" "filter (\<lambda>x. x = c) p = []" "filter (\<lambda>x. x = c) sg = []"
    using assms by (auto simp: filter_empty_conv)
  then show ?thesis by simp
qed

lemma decimal_nonempty: "decimal n \<noteq> []"
  by (subst decimal.simps) simp

lemma stringify_nonempty: "stringify j \<noteq> []"
  by (cases j) (simp_all add: quote_json_def number_to_string_def decimal_nonempty)

lemma createToken_split:
  assumes "LIVEKIT_API_SECRET env = Some secret"
  shows "\<exists>tok. createToken env date_now ident roomName = Inr tok
     \<and> split_on CHR ''.'' tok =
         [base64UrlEncode (stringify header),
          base64UrlEncode
            (stringify (payload (LIVEKIT_API_KEY env) (date_now div 1000) ident roomName)),
          base64UrlEncode
            (hmac_sha256 secret
               (base64UrlEncode (stringify header) @ ''.''
                @ base64UrlEncode
                    (stringify
                       (payload (LIVEKIT_API_KEY env) (date_now div 1000) ident roomName))))]
     \<and> length (filter (\<lambda>c. c = CHR ''.'') tok) = 2"
  unfolding createToken_segments [OF assms]
  using split_three [OF dot_not_in_base64UrlEncode dot_not_in_base64UrlEncode
      dot_not_in_base64UrlEncode]
    count_three [OF dot_not_in_base64UrlEncode dot_not_in_base64UrlEncode
      dot_not_in_base64UrlEncode]
  by simp

lemma token_handler_ok:
  assumes "req_method req \<noteq> ''OPTIONS''"
    and "req_identity req = Some ident" and "ident \<noteq> []"
    and "req_room req = Some roomName" and "roomName \<noteq> []"
    and "truthy (LIVEKIT_API_KEY env)"
    and "LIVEKIT_API_SECRET env = Some secret" and "secret \<noteq> []"
    and "createToken env date_now ident roomName = Inr tok"
  shows "token_handler env date_now req =
     (\<lparr>status = 200, body = TokenBody tok\<rparr>,
      [[Text (''Token generated for user: '' @ ident @ '', room: '' @ roomName)]])"
  using assms by (simp add: token_handler_def truthy_def or_else_def)

section \<open>The claims about the token issuer\<close>

text \<open>
  Claim C3. With the signing secret set, \<^verbatim>\<open>createToken\<close> returns a string with exactly two
  \<^verbatim>\<open>.\<close> characters; split at \<^verbatim>\<open>.\<close> it is three segments, none of them empty, each made
  of characters of the unpadded URL-safe base64 alphabet only (\<^verbatim>\<open>A-Z\<close>, \<^verbatim>\<open>a-z\<close>, \<^verbatim>\<open>0-9\<close>,
  \<^verbatim>\<open>-\<close>, \<^verbatim>\<open>_\<close>; no \<^verbatim>\<open>=\<close>) and each with a decoding. This holds for every identity and
  room; for a request with a non-empty identity and a non-empty room, on a server with
  both credentials set, the handler answers 200 with that string as the token.
\<close>

theorem token_shape:
  "LIVEKIT_API_SECRET env = Some secret \<longrightarrow>
     (\<exists>tok h p sg.
        createToken env date_now ident roomName = Inr tok
        \<and> length (filter (\<lambda>c. c = CHR ''.'') tok) = 2
        \<and> split_on CHR ''.'' tok = [h, p, sg]
        \<and> h \<noteq> [] \<and> p \<noteq> [] \<and> sg \<noteq> []
        \<and> set h \<subseteq> set base64url_alphabet
        \<and> set p \<subseteq> set base64url_alphabet
        \<and> set sg \<subseteq> set base64url_alphabet
        \<and> base64UrlDecode h \<noteq> None \<and> base64UrlDecode p \<noteq> None
        \<and> base64UrlDecode sg \<noteq> None
        \<and> (req_method req \<noteq> ''OPTIONS''
             \<and> req_identity req = Some ident \<and> ident \<noteq> []
             \<and> req_room req = Some roomName \<and> roomName \<noteq> []
             \<and> truthy (LIVEKIT_API_KEY env) \<and> secret \<noteq> [] \<longrightarrow>
             fst (token_handler env date_now req) =
               \<lparr>status = 200, body = TokenBody tok\<rparr>))"
proof
  assume secret: "LIVEKIT_API_SECRET env = Some secret"
  let ?h = "base64UrlEncode (stringify header)"
  let ?p = "base64UrlEncode
      (stringify (payload (LIVEKIT_API_KEY env) (date_now div 1000) ident roomName))"
  let ?sg = "base64UrlEncode (hmac_sha256 secret (?h @ ''.'' @ ?p))"
  from createToken_split [OF secret, of date_now ident roomName]
  obtain tok where tok: "createToken env date_now ident roomName = Inr tok"
    and segs: "split_on CHR ''.'' tok = [?h, ?p, ?sg]"
    and dots: "length (filter (\<lambda>c. c = CHR ''.'') tok) = 2"
    by blast
  have nonempty: "?h \<noteq> []" "?p \<noteq> []" "?sg \<noteq> []"
    by (simp_all add: base64UrlEncode_empty_iff stringify_nonempty hmac_sha256_nonempty)
  have alphabet: "set ?h \<subseteq> set base64url_alphabet" "set ?p \<subseteq> set base64url_alphabet"
    "set ?sg \<subseteq> set base64url_alphabet"
    by (rule base64UrlEncode_alphabet)+
  have decodable: "base64UrlDecode ?h \<noteq> None" "base64UrlDecode ?p \<noteq> None"
    "base64UrlDecode ?sg \<noteq> None"
    by (simp_all add: base64UrlDecode_encode)
  have served: "req_method req \<noteq> ''OPTIONS''
             \<and> req_identity req = Some ident \<and> ident \<noteq> []
             \<and> req_room req = Some roomName \<and> roomName \<noteq> []
             \<and> truthy (LIVEKIT_API_KEY env) \<and> secret \<noteq> [] \<longrightarrow>
             fst (token_handler env date_now req) =
               \<lparr>status = 200, body = TokenBody tok\<rparr>"
    using token_handler_ok [OF _ _ _ _ _ _ secret _ tok, of req] by simp
  from tok dots segs nonempty alphabet decodable served
  show "\<exists>tok h p sg.
        createToken env date_now ident roomName = Inr tok
        \<and> length (filter (\<lambda>c. c = CHR ''.'') tok) = 2
        \<and> split_on CHR ''.'' tok = [h, p, sg]
        \<and> h \<noteq> [] \<and> p \<noteq> [] \<and> sg \<noteq> []
        \<and> set h \<subseteq> set base64url_alphabet
        \<and> set p \<subseteq> set base64url_alphabet
        \<and> set sg \<subseteq> set base64url_alphabet
        \<and> base64UrlDecode h \<noteq> None \<and> base64UrlDecode p \<noteq> None
        \<and> base64UrlDecode sg \<noteq> None
        \<and> (req_method req \<noteq> ''OPTIONS''
             \<and> req_identity req = Some ident \<and> ident \<noteq> []
             \<and> req_room req = Some roomName \<and> roomName \<noteq> []
             \<and> truthy (LIVEKIT_API_KEY env) \<and> secret \<noteq> [] \<longrightarrow>
             fst (token_handler env date_now req) =
               \<lparr>status = 200, body = TokenBody tok\<rparr>)"
    by blast
qed

theorem token_shape_witness:
  "LIVEKIT_API_SECRET example_env = Some ''secret''
   \<and> (\<exists>tok h p sg.
        createToken example_env 1700000000999 ''alice'' ''room-A'' = Inr tok
        \<and> fst (token_handler example_env 1700000000999
                  (example_request ''token'' (Some ''room-A'') None)) =
            \<lparr>status = 200, body = TokenBody tok\<rparr>
        \<and> length (filter (\<lambda>c. c = CHR ''.'') tok) = 2
        \<and> split_on CHR ''.'' tok = [h, p, sg]
        \<and> h \<noteq> [] \<and> p \<noteq> [] \<and> sg \<noteq> []
        \<and> set h \<subseteq> set base64url_alphabet
        \<and> set p \<subseteq> set base64url_alphabet
        \<and> set sg \<subseteq> set base64url_alphabet)"
proof -
  have secret: "LIVEKIT_API_SECRET example_env = Some ''secret''"
    by (simp add: example_env_def)
  let ?req = "example_request ''token'' (Some ''room-A'') None"
  have valid: "req_method ?req \<noteq> ''OPTIONS''
      \<and> req_identity ?req = Some ''alice'' \<and> ''alice'' \<noteq> []
      \<and> req_room ?req = Some ''room-A'' \<and> ''room-A'' \<noteq> []
      \<and> truthy (LIVEKIT_API_KEY example_env) \<and> ''secret'' \<noteq> []"
    by (simp add: example_request_def example_env_def truthy_def)
  from token_shape [where env = example_env and secret = "''secret''" and req = ?req
      and date_now = 1700000000999 and ident = "''alice''" and roomName = "''room-A''",
      rule_format, OF secret] valid secret
  show ?thesis by blast
qed

subsection \<open>The key of the HMAC\<close>

lemma hmac_key_block_zero:
  assumes "length key < 64"
  shows "hmac_key_block (key @ [CHR 0x00]) = hmac_key_block key"
proof -
  from assms have "64 - length key = Suc (64 - Suc (length key))" by simp
  then have "replicate (64 - length key) (CHR 0x00) =
      CHR 0x00 # replicate (64 - Suc (length key)) (CHR 0x00)"
    by simp
  with assms show ?thesis by (simp add: hmac_key_block_def)
qed

lemma hmac_sha256_key_block:
  "hmac_key_block key1 = hmac_key_block key2 \<Longrightarrow> hmac_sha256 key1 msg = hmac_sha256 key2 msg"
  by (simp add: hmac_sha256_def)

lemma createToken_signature:
  assumes "LIVEKIT_API_SECRET env = Some secret"
  shows "\<exists>tok. createToken env date_now ident roomName = Inr tok
     \<and> length (split_on CHR ''.'' tok) = 3
     \<and> split_on CHR ''.'' tok ! 2 =
         base64UrlEncode
           (hmac_sha256 secret
              (split_on CHR ''.'' tok ! 0 @ ''.'' @ split_on CHR ''.'' tok ! 1))"
proof -
  from createToken_split [OF assms, of date_now ident roomName]
  obtain tok where "createToken env date_now ident roomName = Inr tok"
    and "split_on CHR ''.'' tok =
         [base64UrlEncode (stringify header),
          base64UrlEncode
            (stringify (payload (LIVEKIT_API_KEY env) (date_now div 1000) ident roomName)),
          base64UrlEncode
            (hmac_sha256 secret
               (base64UrlEncode (stringify header) @ ''.''
                @ base64UrlEncode
                    (stringify
                       (payload (LIVEKIT_API_KEY env) (date_now div 1000) ident roomName))))]"
    by blast
  then show ?thesis by simp
qed

text \<open>
  Claim C1. With the signing secret set, the credential splits at \<^verbatim>\<open>.\<close> into three
  segments, and the third is the unpadded URL-safe base64 of the HMAC-SHA256 digest, under
  the signing secret, of the first segment, a \<^verbatim>\<open>.\<close> and the second segment. Recomputing
  with another secret gives the third segment again exactly when that secret has the same
  digest over these two segments (the encoding of digests is injective). That does happen
  for a different secret: HMAC fills a key up to its block of 64 bytes with zero bytes (and
  hashes a longer key first), so every secret with the same key block signs alike, for one
  a secret shorter than 64 bytes and the same secret followed by a zero byte.
\<close>

theorem signature_round_trip:
  "LIVEKIT_API_SECRET env = Some secret \<longrightarrow>
     (\<exists>tok. createToken env date_now ident roomName = Inr tok
        \<and> length (split_on CHR ''.'' tok) = 3
        \<and> split_on CHR ''.'' tok ! 2 =
            base64UrlEncode
              (hmac_sha256 secret
                 (split_on CHR ''.'' tok ! 0 @ ''.'' @ split_on CHR ''.'' tok ! 1))
        \<and> (\<forall>other.
              (base64UrlEncode
                 (hmac_sha256 other
                    (split_on CHR ''.'' tok ! 0 @ ''.'' @ split_on CHR ''.'' tok ! 1))
               = split_on CHR ''.'' tok ! 2)
              = (hmac_sha256 other
                   (split_on CHR ''.'' tok ! 0 @ ''.'' @ split_on CHR ''.'' tok ! 1)
                 = hmac_sha256 secret
                     (split_on CHR ''.'' tok ! 0 @ ''.'' @ split_on CHR ''.'' tok ! 1)))
        \<and> (\<forall>other. hmac_key_block other = hmac_key_block secret \<longrightarrow>
              base64UrlEncode
                (hmac_sha256 other
                   (split_on CHR ''.'' tok ! 0 @ ''.'' @ split_on CHR ''.'' tok ! 1))
              = split_on CHR ''.'' tok ! 2))"
proof
  assume "LIVEKIT_API_SECRET env = Some secret"
  from createToken_signature [OF this, of date_now ident roomName]
  obtain tok where tok: "createToken env date_now ident roomName = Inr tok"
    and three: "length (split_on CHR ''.'' tok) = 3"
    and sg: "split_on CHR ''.'' tok ! 2 =
         base64UrlEncode
           (hmac_sha256 secret
              (split_on CHR ''.'' tok ! 0 @ ''.'' @ split_on CHR ''.'' tok ! 1))"
    by blast
  let ?signed = "split_on CHR ''.'' tok ! 0 @ ''.'' @ split_on CHR ''.'' tok ! 1"
  have iff: "\<forall>other. (base64UrlEncode (hmac_sha256 other ?signed) = split_on CHR ''.'' tok ! 2)
      = (hmac_sha256 other ?signed = hmac_sha256 secret ?signed)"
    unfolding sg by (simp add: base64UrlEncode_inject)
  have same_block: "\<forall>other. hmac_key_block other = hmac_key_block secret \<longrightarrow>
      base64UrlEncode (hmac_sha256 other ?signed) = split_on CHR ''.'' tok ! 2"
  proof (intro allI impI)
    fix other
    assume "hmac_key_block other = hmac_key_block secret"
    then have "hmac_sha256 other ?signed = hmac_sha256 secret ?signed"
      by (rule hmac_sha256_key_block)
    then show "base64UrlEncode (hmac_sha256 other ?signed) = split_on CHR ''.'' tok ! 2"
      unfolding sg by simp
  qed
  show "\<exists>tok. createToken env date_now ident roomName = Inr tok
        \<and> length (split_on CHR ''.'' tok) = 3
        \<and> split_on CHR ''.'' tok ! 2 =
            base64UrlEncode
              (hmac_sha256 secret
                 (split_on CHR ''.'' tok ! 0 @ ''.'' @ split_on CHR ''.'' tok ! 1))
        \<and> (\<forall>other.
              (base64UrlEncode
                 (hmac_sha256 other
                    (split_on CHR ''.'' tok ! 0 @ ''.'' @ split_on CHR ''.'' tok ! 1))
               = split_on CHR ''.'' tok ! 2)
              = (hmac_sha256 other
                   (split_on CHR ''.'' tok ! 0 @ ''.'' @ split_on CHR ''.'' tok ! 1)
                 = hmac_sha256 secret
                     (split_on CHR ''.'' tok ! 0 @ ''.'' @ split_on CHR ''.'' tok ! 1)))
        \<and> (\<forall>other. hmac_key_block other = hmac_key_block secret \<longrightarrow>
              base64UrlEncode
                (hmac_sha256 other
                   (split_on CHR ''.'' tok ! 0 @ ''.'' @ split_on CHR ''.'' tok ! 1))
              = split_on CHR ''.'' tok ! 2)"
    apply (rule exI [of _ tok])
    apply (intro conjI)
        apply (rule tok)
       apply (rule three)
      apply (rule sg)
     apply (rule iff)
    apply (rule same_block)
    done
qed

lemma example_token_eq:
  "createToken example_env 1700000000999 ''alice'' ''room-A'' = Inr example_token"
proof -
  have "LIVEKIT_API_SECRET example_env = Some ''secret''"
    by (simp add: example_env_def)
  from createToken_signature [OF this, of 1700000000999 "''alice''" "''room-A''"]
  show ?thesis by (auto simp: example_token_def)
qed

theorem signature_round_trip_witness:
  "LIVEKIT_API_SECRET example_env = Some ''secret''
   \<and> hmac_key_block (''secret'' @ [CHR 0x00]) = hmac_key_block ''secret''
   \<and> createToken example_env 1700000000999 ''alice'' ''room-A'' = Inr example_token
   \<and> length (split_on CHR ''.'' example_token) = 3
   \<and> split_on CHR ''.'' example_token ! 2 =
       base64UrlEncode
         (hmac_sha256 ''secret''
            (split_on CHR ''.'' example_token ! 0 @ ''.''
             @ split_on CHR ''.'' example_token ! 1))
   \<and> base64UrlEncode
         (hmac_sha256 (''secret'' @ [CHR 0x00])
            (split_on CHR ''.'' example_token ! 0 @ ''.''
             @ split_on CHR ''.'' example_token ! 1))
       = split_on CHR ''.'' example_token ! 2"
proof -
  have secret: "LIVEKIT_API_SECRET example_env = Some ''secret''"
    by (simp add: example_env_def)
  have block: "hmac_key_block (''secret'' @ [CHR 0x00]) = hmac_key_block ''secret''"
    by (rule hmac_key_block_zero) simp
  from signature_round_trip [where env = example_env and secret = "''secret''"
      and date_now = 1700000000999 and ident = "''alice''" and roomName = "''room-A''",
      rule_format, OF secret]
  obtain tok where all:
    "createToken example_env 1700000000999 ''alice'' ''room-A'' = Inr tok
     \<and> length (split_on CHR ''.'' tok) = 3
     \<and> split_on CHR ''.'' tok ! 2 =
         base64UrlEncode
           (hmac_sha256 ''secret''
              (split_on CHR ''.'' tok ! 0 @ ''.'' @ split_on CHR ''.'' tok ! 1))
     \<and> (\<forall>other.
           (base64UrlEncode
              (hmac_sha256 other
                 (split_on CHR ''.'' tok ! 0 @ ''.'' @ split_on CHR ''.'' tok ! 1))
            = split_on CHR ''.'' tok ! 2)
           = (hmac_sha256 other
                (split_on CHR ''.'' tok ! 0 @ ''.'' @ split_on CHR ''.'' tok ! 1)
              = hmac_sha256 ''secret''
                  (split_on CHR ''.'' tok ! 0 @ ''.'' @ split_on CHR ''.'' tok ! 1)))
     \<and> (\<forall>other. hmac_key_block other = hmac_key_block ''secret'' \<longrightarrow>
           base64UrlEncode
             (hmac_sha256 other
                (split_on CHR ''.'' tok ! 0 @ ''.'' @ split_on CHR ''.'' tok ! 1))
           = split_on CHR ''.'' tok ! 2)" ..
  from all example_token_eq have same: "tok = example_token"
    by simp
  note three = all [unfolded same, THEN conjunct2, THEN conjunct1]
  note sg = all [unfolded same, THEN conjunct2, THEN conjunct2, THEN conjunct1]
  note zero = all [unfolded same, THEN conjunct2, THEN conjunct2, THEN conjunct2,
      THEN conjunct2, rule_format, OF block]
  show ?thesis
    apply (intro conjI)
         apply (rule secret)
        apply (rule block)
       apply (rule example_token_eq)
      apply (rule three)
     apply (rule sg)
    apply (rule zero)
    done
qed

text \<open>
  The claim as stated, that no other secret reproduces the third segment, fails for the
  credential of \<^verbatim>\<open>alice\<close> in \<^verbatim>\<open>room-A\<close> signed with \<^verbatim>\<open>secret\<close>: the secret \<^verbatim>\<open>secret\<close>
  followed by a zero byte is another string and reproduces the signature.
\<close>

theorem other_secret_counterexample:
  "LIVEKIT_API_SECRET example_env = Some ''secret''
   \<and> ''secret'' @ [CHR 0x00] \<noteq> ''secret''
   \<and> createToken example_env 1700000000999 ''alice'' ''room-A'' = Inr example_token
   \<and> base64UrlEncode
         (hmac_sha256 (''secret'' @ [CHR 0x00])
            (split_on CHR ''.'' example_token ! 0 @ ''.''
             @ split_on CHR ''.'' example_token ! 1))
       = split_on CHR ''.'' example_token ! 2"
proof -
  have secret: "LIVEKIT_API_SECRET example_env = Some ''secret''"
    by (simp add: example_env_def)
  have block: "hmac_key_block (''secret'' @ [CHR 0x00]) = hmac_key_block ''secret''"
    by (rule hmac_key_block_zero) simp
  from createToken_signature [OF secret, of 1700000000999 "''alice''" "''room-A''"]
  have "split_on CHR ''.'' example_token ! 2 =
       base64UrlEncode
         (hmac_sha256 ''secret''
            (split_on CHR ''.'' example_token ! 0 @ ''.''
             @ split_on CHR ''.'' example_token ! 1))"
    by (auto simp: example_token_eq)
  with hmac_sha256_key_block [OF block] secret example_token_eq show ?thesis by simp
qed

section \<open>Reading the text of \<^verbatim>\<open>JSON.stringify\<close> back\<close>

subsection \<open>Reading numbers back\<close>

lemma digit_char_props: "is_digit (digit_char n) \<and> digit_value (digit_char n) = n mod 10"
proof -
  define k where "k = nat (n mod 10)"
  have kn: "n mod 10 = int k" by (simp add: k_def)
  have "k < 10" by (simp add: k_def nat_less_iff)
  then have "k = 0 \<or> k = 1 \<or> k = 2 \<or> k = 3 \<or> k = 4 \<or> k = 5 \<or> k = 6 \<or> k = 7
      \<or> k = 8 \<or> k = 9"
    by auto
  then show ?thesis
    unfolding digit_char_def k_def [symmetric] kn
    by (elim disjE) (simp_all add: is_digit_def digit_value_def)
qed

lemma digit_char_is_digit: "is_digit (digit_char n)"
  using digit_char_props [of n] by simp

lemma digit_value_digit_char: "digit_value (digit_char n) = n mod 10"
  using digit_char_props [of n] by simp

lemma parse_digits_decimal:
  "0 \<le> n \<Longrightarrow>
     parse_digits acc (decimal n @ rest) =
       parse_digits (acc * 10 ^ length (decimal n) + n) rest"
proof (induction n arbitrary: acc rest rule: decimal.induct)
  case (1 n)
  show ?case
  proof (cases "n < 10")
    case True
    with "1.prems" have "n mod 10 = n" by simp
    with True show ?thesis
      by (subst (1 2) decimal.simps)
         (simp add: digit_char_is_digit digit_value_digit_char)
  next
    case False
    with "1.prems" have "0 \<le> n div 10" by simp
    from "1.IH" [OF False this, of acc "digit_char n # rest"]
    have "parse_digits acc (decimal (n div 10) @ digit_char n # rest) =
        parse_digits ((acc * 10 ^ length (decimal (n div 10)) + n div 10) * 10 + n mod 10) rest"
      by (simp add: digit_char_is_digit digit_value_digit_char)
    moreover have "(acc * 10 ^ length (decimal (n div 10)) + n div 10) * 10 + n mod 10 =
        acc * 10 ^ Suc (length (decimal (n div 10))) + n"
      by (simp add: algebra_simps)
    moreover have "decimal n = decimal (n div 10) @ [digit_char n]"
      using False by (subst decimal.simps) simp
    ultimately show ?thesis by (simp add: mult.commute mult.left_commute add.commute)
  qed
qed

lemma decimal_starts_with_digit: "is_digit (hd (decimal n))"
proof (induction n rule: decimal.induct)
  case (1 n)
  show ?case
  proof (cases "n < 10")
    case True
    then show ?thesis by (subst decimal.simps) (simp add: digit_char_is_digit)
  next
    case False
    with "1.IH" decimal_nonempty [of "n div 10"] show ?thesis
      by (subst decimal.simps) simp
  qed
qed

lemma parse_digits_stop: "no_digit_ahead rest \<Longrightarrow> parse_digits acc rest = (acc, rest)"
  by (cases rest) (simp_all add: no_digit_ahead_def)

lemma parse_digits_whole:
  assumes "0 \<le> n" and "no_digit_ahead rest"
  shows "parse_digits 0 (decimal n @ rest) = (n, rest)"
  using parse_digits_decimal [OF assms(1), of 0 rest] parse_digits_stop [OF assms(2)]
  by simp

lemma minus_is_no_digit: "\<not> is_digit (CHR ''-'')"
  by (simp add: is_digit_def)

lemma parse_number_to_string:
  assumes "no_digit_ahead rest"
  shows "parse_number (number_to_string n @ rest) = Some (JNumber n, rest)"
proof (cases "n < 0")
  case True
  then have pos: "0 \<le> - n" by simp
  obtain d ds where d: "decimal (- n) = d # ds"
    using decimal_nonempty [of "- n"] by (cases "decimal (- n)") auto
  with decimal_starts_with_digit [of "- n"] have "is_digit d" by simp
  with True d parse_digits_whole [OF pos assms] show ?thesis
    by (simp add: parse_number_def number_to_string_def)
next
  case False
  then have pos: "0 \<le> n" by simp
  obtain d ds where d: "decimal n = d # ds"
    using decimal_nonempty [of n] by (cases "decimal n") auto
  with decimal_starts_with_digit [of n] have dig: "is_digit d" by simp
  then have "d \<noteq> CHR ''-''" using minus_is_no_digit by auto
  with False d dig parse_digits_whole [OF pos assms] show ?thesis
    by (simp add: parse_number_def number_to_string_def)
qed

subsection \<open>Reading strings back\<close>

lemma distinct_hex_digits: "distinct ''0123456789abcdef''"
  by simp

lemma hex_value_hex_char: "hex_value (hex_char d) = Some (d mod 16)"
proof -
  have "index_of (''0123456789abcdef'' ! (d mod 16)) ''0123456789abcdef'' = Some (d mod 16)"
    by (rule index_of_nth [OF distinct_hex_digits]) simp
  then show ?thesis by (simp add: hex_value_def hex_char_def)
qed

lemma hex_value_zero: "hex_value (CHR ''0'') = Some 0"
  by (simp add: hex_value_def)

lemma hex4_control:
  assumes "(of_char c :: nat) < 0x20"
  shows "hex4 (CHR ''0'') (CHR ''0'') (hex_char (of_char c div 16)) (hex_char (of_char c)) =
           Some (of_char c)"
proof -
  from assms have "(of_char c :: nat) div 16 < 16" by simp
  then have "(of_char c :: nat) div 16 mod 16 = of_char c div 16" by simp
  then show ?thesis
    by (simp add: hex4_def hex_value_hex_char hex_value_zero)
qed

lemma parse_chars_escape:
  "parse_chars (json_escape c @ rest) = map_option (apfst (Cons c)) (parse_chars rest)"
proof -
  consider (special) "c \<in> {CHR 0x22, CHR 0x5C, CHR 0x08, CHR 0x09, CHR 0x0A, CHR 0x0C, CHR 0x0D}"
    | (control) "c \<notin> {CHR 0x22, CHR 0x5C, CHR 0x08, CHR 0x09, CHR 0x0A, CHR 0x0C, CHR 0x0D}"
        "(of_char c :: nat) < 0x20"
    | (plain) "c \<notin> {CHR 0x22, CHR 0x5C, CHR 0x08, CHR 0x09, CHR 0x0A, CHR 0x0C, CHR 0x0D}"
        "\<not> (of_char c :: nat) < 0x20"
    by blast
  then show ?thesis
  proof cases
    case special
    then show ?thesis
      by (auto simp: json_escape_def simple_escape_def)
  next
    case control
    then show ?thesis
      by (simp add: json_escape_def hex4_control)
  next
    case plain
    then show ?thesis
      by (simp add: json_escape_def)
  qed
qed

lemma parse_chars_escaped:
  "parse_chars (concat (map json_escape s) @ CHR 0x22 # rest) = Some (s, rest)"
  by (induction s) (simp_all add: parse_chars_escape)

lemma parse_chars_quoted:
  "quote_json s @ rest = CHR 0x22 # concat (map json_escape s) @ CHR 0x22 # rest"
  by (simp add: quote_json_def)

subsection \<open>Reading values back\<close>

lemma number_first_char:
  "is_digit c \<or> c = CHR ''-'' \<Longrightarrow>
     c \<noteq> CHR 0x22 \<and> c \<noteq> CHR ''{'' \<and> c \<noteq> CHR ''t'' \<and> c \<noteq> CHR ''f''"
  by (auto simp: is_digit_def)

lemma number_to_string_first:
  "\<exists>c cs. number_to_string n = c # cs \<and> (is_digit c \<or> c = CHR ''-'')"
proof (cases "n < 0")
  case True
  then show ?thesis by (simp add: number_to_string_def)
next
  case False
  obtain d ds where d: "decimal n = d # ds"
    using decimal_nonempty [of n] by (cases "decimal n") auto
  with decimal_starts_with_digit [of n] have "is_digit d" by simp
  with False d show ?thesis by (simp add: number_to_string_def)
qed

lemma parse_value_number:
  assumes "no_digit_ahead rest"
  shows "parse_value (Suc n) (number_to_string k @ rest) = Some (JNumber k, rest)"
proof -
  from number_to_string_first [of k]
  obtain c cs where c: "number_to_string k = c # cs" "is_digit c \<or> c = CHR ''-''"
    by blast
  from number_first_char [OF c(2)]
  have "parse_value (Suc n) (c # cs @ rest) = parse_number (c # cs @ rest)"
    by simp
  with parse_number_to_string [OF assms, of k] c(1) show ?thesis by simp
qed

lemma parse_value_string:
  "parse_value (Suc n) (quote_json s @ rest) = Some (JString s, rest)"
  by (simp add: parse_chars_quoted parse_chars_escaped)

lemma parse_value_bool:
  "parse_value (Suc n) ((if b then ''true'' else ''false'') @ rest) = Some (JBool b, rest)"
  by simp

lemma separator_no_digit:
  "no_digit_ahead (CHR '','' # s)" "no_digit_ahead (CHR ''}'' # s)"
  by (simp_all add: no_digit_ahead_def is_digit_def)

lemma parse_members_step:
  assumes "parse_value n (stringify v @ d # s) = Some (v, d # s)"
  shows "parse_members (Suc n) (quote_json k @ '':'' @ stringify v @ d # s) =
     (if d = CHR '','' then map_option (apfst (Cons (k, v))) (parse_members n s)
      else if d = CHR ''}'' then Some ([(k, v)], s) else None)"
  using assms
  by (simp add: parse_chars_quoted parse_chars_escaped expect_def)

lemma parse_members_text:
  assumes each: "\<And>k v n rest. (k, v) \<in> set ms \<Longrightarrow> fuel v \<le> n \<Longrightarrow> no_digit_ahead rest \<Longrightarrow>
      parse_value n (stringify v @ rest) = Some (v, rest)"
    and "ms \<noteq> []"
    and "sum_list (map (\<lambda>(k, v). Suc (fuel v)) ms) \<le> n"
  shows "parse_members n
     (join_with '','' (map (\<lambda>(k, v). quote_json k @ '':'' @ stringify v) ms)
      @ CHR ''}'' # rest) = Some (ms, rest)"
  using assms
proof (induction ms arbitrary: n)
  case Nil
  then show ?case by simp
next
  case (Cons m ms)
  note hyp = Cons.IH and here = Cons.prems(1) and enough = Cons.prems(3)
  obtain k v where m: "m = (k, v)" by (cases m)
  from enough m obtain n' where n: "n = Suc n'" and fv: "fuel v \<le> n'"
    and rest_fuel: "sum_list (map (\<lambda>(k, v). Suc (fuel v)) ms) \<le> n'"
    by (cases n) auto
  have first: "parse_value n' (stringify v @ rest') = Some (v, rest')"
    if "no_digit_ahead rest'" for rest'
    by (rule here [of k v, OF _ fv that]) (simp add: m)
  have later: "parse_value n (stringify v @ rest) = Some (v, rest)"
    if "(k, v) \<in> set ms" and "fuel v \<le> n" and "no_digit_ahead rest" for k v n rest
    by (rule here [of k v, OF _ that(2,3)]) (simp add: that(1))
  show ?case
  proof (cases "ms = []")
    case True
    from parse_members_step [OF first [OF separator_no_digit(2)], of k] show ?thesis
      by (simp add: True m n)
  next
    case False
    then obtain m' ms' where ms: "ms = m' # ms'" by (cases ms) auto
    let ?tail = "join_with '','' (map (\<lambda>(k, v). quote_json k @ '':'' @ stringify v) ms)
        @ CHR ''}'' # rest"
    from parse_members_step [OF first [OF separator_no_digit(1)], of k ?tail]
    have "parse_members (Suc n') (quote_json k @ '':'' @ stringify v @ CHR '','' # ?tail) =
        map_option (apfst (Cons (k, v))) (parse_members n' ?tail)"
      by simp
    moreover have "parse_members n' ?tail = Some (ms, rest)"
      by (rule hyp [OF later False rest_fuel])
    ultimately show ?thesis
      by (simp add: ms m n)
  qed
qed

lemma parse_value_stringify:
  "fuel j \<le> n \<Longrightarrow> no_digit_ahead rest \<Longrightarrow> parse_value n (stringify j @ rest) = Some (j, rest)"
proof (induction j arbitrary: n rest)
  case (JString s)
  then obtain n' where "n = Suc n'" by (cases n) auto
  then show ?case by (simp add: parse_value_string)
next
  case (JNumber k)
  then obtain n' where "n = Suc n'" by (cases n) auto
  with JNumber.prems(2) show ?case by (simp add: parse_value_number)
next
  case (JBool b)
  then obtain n' where "n = Suc n'" by (cases n) auto
  then show ?case using parse_value_bool [of n' b rest] by simp
next
  case (JObject ms)
  from JObject.prems(1) obtain n' where n: "n = Suc n'"
    and members_fuel: "sum_list (map (\<lambda>(k, v). Suc (fuel v)) ms) \<le> n'"
    by (cases n) auto
  show ?case
  proof (cases ms)
    case Nil
    then show ?thesis by (simp add: n)
  next
    case (Cons m ms')
    obtain k v where m: "m = (k, v)" by (cases m)
    have each: "\<And>k v n rest. (k, v) \<in> set ms \<Longrightarrow> fuel v \<le> n \<Longrightarrow> no_digit_ahead rest \<Longrightarrow>
        parse_value n (stringify v @ rest) = Some (v, rest)"
      by (rule JObject.IH) auto
    have "parse_members n'
       (join_with '','' (map (\<lambda>(k, v). quote_json k @ '':'' @ stringify v) ms)
        @ CHR ''}'' # rest) = Some (ms, rest)"
      by (rule parse_members_text [OF each _ members_fuel]) (simp_all add: Cons)
    moreover obtain t where "join_with '','' (map (\<lambda>(k, v). quote_json k @ '':'' @ stringify v) ms)
        = CHR 0x22 # t"
      by (cases ms') (simp_all add: Cons m quote_json_def)
    ultimately show ?thesis
      by (simp add: n)
  qed
qed

lemma length_join_with: "sum_list (map length xs) \<le> length (join_with sep xs)"
  by (induction sep xs rule: join_with.induct) simp_all

lemma fuel_le_length: "fuel j \<le> length (stringify j)"
proof (induction j)
  case (JString s)
  show ?case by (simp add: quote_json_def)
next
  case (JNumber k)
  show ?case using stringify_nonempty [of "JNumber k"] by (simp add: Suc_le_eq)
next
  case (JBool b)
  show ?case by simp
next
  case (JObject ms)
  have "sum_list (map (\<lambda>(k, v). Suc (fuel v)) ms)
      \<le> sum_list (map length (map (\<lambda>(k, v). quote_json k @ '':'' @ stringify v) ms))"
    unfolding map_map
  proof (rule sum_list_mono)
    fix m
    assume "m \<in> set ms"
    obtain k v where m: "m = (k, v)" by (cases m)
    with \<open>m \<in> set ms\<close> have "fuel v \<le> length (stringify v)"
      by (intro JObject.IH [of m v]) simp_all
    then show "(case m of (k, v) \<Rightarrow> Suc (fuel v))
        \<le> (length \<circ> (\<lambda>(k, v). quote_json k @ '':'' @ stringify v)) m"
      by (simp add: m)
  qed
  also have "\<dots> \<le> length (join_with '','' (map (\<lambda>(k, v). quote_json k @ '':'' @ stringify v) ms))"
    by (rule length_join_with)
  finally show ?case by simp
qed

lemma json_parse_stringify: "json_parse (stringify j) = Some j"
proof -
  have "parse_value (length (stringify j)) (stringify j @ []) = Some (j, [])"
    by (rule parse_value_stringify [OF fuel_le_length]) (simp add: no_digit_ahead_def)
  then show ?thesis by (simp add: json_parse_def)
qed

lemma decode_segment_encode: "decode_segment (base64UrlEncode (stringify j)) = Some j"
  by (simp add: decode_segment_def base64UrlDecode_encode json_parse_stringify)

section \<open>The claim about the decoded credential\<close>

subsection \<open>The members of the header and of the claim set\<close>

lemma header_members:
  "member header ''alg'' = Some (JString ''HS256'')"
  "member header ''typ'' = Some (JString ''JWT'')"
  by (simp_all add: header_def member_def)

lemma payload_members:
  "member (payload api_key now ident roomName) ''exp'' = Some (JNumber (now + 86400))"
  "member (payload api_key now ident roomName) ''nbf'' = Some (JNumber now)"
  "member (payload api_key now ident roomName) ''sub'' = Some (JString ident)"
  "member (payload api_key now ident roomName) ''name'' = Some (JString ident)"
  "member (payload api_key now ident roomName) ''iss'' = map_option JString api_key"
  "member (payload api_key now ident roomName) ''video'' =
     Some (JObject [(''room'', JString roomName), (''roomJoin'', JBool True),
                    (''canPublish'', JBool True), (''canSubscribe'', JBool True),
                    (''canPublishData'', JBool True)])"
  by (cases api_key; simp add: payload_def member_def)+

lemma grant_members:
  "member (JObject [(''room'', JString roomName), (''roomJoin'', JBool True),
                    (''canPublish'', JBool True), (''canSubscribe'', JBool True),
                    (''canPublishData'', JBool True)]) ''room'' = Some (JString roomName)"
  "member (JObject [(''room'', JString roomName), (''roomJoin'', JBool True),
                    (''canPublish'', JBool True), (''canSubscribe'', JBool True),
                    (''canPublishData'', JBool True)]) ''roomJoin'' = Some (JBool True)"
  "member (JObject [(''room'', JString roomName), (''roomJoin'', JBool True),
                    (''canPublish'', JBool True), (''canSubscribe'', JBool True),
                    (''canPublishData'', JBool True)]) ''canPublish'' = Some (JBool True)"
  "member (JObject [(''room'', JString roomName), (''roomJoin'', JBool True),
                    (''canPublish'', JBool True), (''canSubscribe'', JBool True),
                    (''canPublishData'', JBool True)]) ''canSubscribe'' = Some (JBool True)"
  "member (JObject [(''room'', JString roomName), (''roomJoin'', JBool True),
                    (''canPublish'', JBool True), (''canSubscribe'', JBool True),
                    (''canPublishData'', JBool True)]) ''canPublishData'' = Some (JBool True)"
  by (simp_all add: member_def)

text \<open>
  Claim C2. With the signing secret set, for every identity, every room and every reading
  \<^verbatim>\<open>date_now\<close> of the clock, \<^verbatim>\<open>createToken\<close> returns a credential of three segments.
  Decoding the first (base64url, then JSON) yields the header, whose \<^verbatim>\<open>alg\<close> is
  \<^verbatim>\<open>HS256\<close>. Decoding the second yields a claim set whose \<^verbatim>\<open>exp\<close> and \<^verbatim>\<open>nbf\<close> are
  numbers \<^verbatim>\<open>e\<close> and \<^verbatim>\<open>n\<close> with \<^verbatim>\<open>e - n = 86400\<close>, \<^verbatim>\<open>n\<close> the issuance time in seconds
  (\<^verbatim>\<open>Math.floor(Date.now() / 1000)\<close>), and whose \<^verbatim>\<open>video\<close> grant is the object of exactly
  five members: \<^verbatim>\<open>room\<close>, the room given, and \<^verbatim>\<open>roomJoin\<close>, \<^verbatim>\<open>canPublish\<close>,
  \<^verbatim>\<open>canSubscribe\<close> and \<^verbatim>\<open>canPublishData\<close>, all \<^verbatim>\<open>true\<close>.
\<close>

theorem credential_claims:
  "LIVEKIT_API_SECRET env = Some secret \<longrightarrow>
     (\<exists>tok h p sg hdr claims e n grant.
        createToken env date_now ident roomName = Inr tok
        \<and> split_on CHR ''.'' tok = [h, p, sg]
        \<and> decode_segment h = Some hdr
        \<and> member hdr ''alg'' = Some (JString ''HS256'')
        \<and> decode_segment p = Some claims
        \<and> member claims ''exp'' = Some (JNumber e)
        \<and> member claims ''nbf'' = Some (JNumber n)
        \<and> e - n = 86400
        \<and> n = date_now div 1000
        \<and> member claims ''video'' = Some grant
        \<and> grant = JObject [(''room'', JString roomName), (''roomJoin'', JBool True),
                            (''canPublish'', JBool True), (''canSubscribe'', JBool True),
                            (''canPublishData'', JBool True)]
        \<and> member grant ''room'' = Some (JString roomName)
        \<and> member grant ''roomJoin'' = Some (JBool True)
        \<and> member grant ''canPublish'' = Some (JBool True)
        \<and> member grant ''canSubscribe'' = Some (JBool True)
        \<and> member grant ''canPublishData'' = Some (JBool True))"
proof
  assume secret: "LIVEKIT_API_SECRET env = Some secret"
  let ?claims = "payload (LIVEKIT_API_KEY env) (date_now div 1000) ident roomName"
  let ?h = "base64UrlEncode (stringify header)"
  let ?p = "base64UrlEncode (stringify ?claims)"
  let ?sg = "base64UrlEncode (hmac_sha256 secret (?h @ ''.'' @ ?p))"
  let ?grant = "JObject [(''room'', JString roomName), (''roomJoin'', JBool True),
                         (''canPublish'', JBool True), (''canSubscribe'', JBool True),
                         (''canPublishData'', JBool True)]"
  from createToken_split [OF secret, of date_now ident roomName]
  obtain tok where tok: "createToken env date_now ident roomName = Inr tok"
    and segs: "split_on CHR ''.'' tok = [?h, ?p, ?sg]"
    by blast
  have seconds: "date_now div 1000 + 86400 - date_now div 1000 = 86400"
    by simp
  show "\<exists>tok h p sg hdr claims e n grant.
        createToken env date_now ident roomName = Inr tok
        \<and> split_on CHR ''.'' tok = [h, p, sg]
        \<and> decode_segment h = Some hdr
        \<and> member hdr ''alg'' = Some (JString ''HS256'')
        \<and> decode_segment p = Some claims
        \<and> member claims ''exp'' = Some (JNumber e)
        \<and> member claims ''nbf'' = Some (JNumber n)
        \<and> e - n = 86400
        \<and> n = date_now div 1000
        \<and> member claims ''video'' = Some grant
        \<and> grant = JObject [(''room'', JString roomName), (''roomJoin'', JBool True),
                            (''canPublish'', JBool True), (''canSubscribe'', JBool True),
                            (''canPublishData'', JBool True)]
        \<and> member grant ''room'' = Some (JString roomName)
        \<and> member grant ''roomJoin'' = Some (JBool True)
        \<and> member grant ''canPublish'' = Some (JBool True)
        \<and> member grant ''canSubscribe'' = Some (JBool True)
        \<and> member grant ''canPublishData'' = Some (JBool True)"
    apply (rule exI [of _ tok])
    apply (rule exI [of _ ?h])
    apply (rule exI [of _ ?p])
    apply (rule exI [of _ ?sg])
    apply (rule exI [of _ header])
    apply (rule exI [of _ ?claims])
    apply (rule exI [of _ "date_now div 1000 + 86400"])
    apply (rule exI [of _ "date_now div 1000"])
    apply (rule exI [of _ ?grant])
    apply (intro conjI)
                   apply (rule tok)
                  apply (rule segs)
                 apply (rule decode_segment_encode)
                apply (rule header_members)
               apply (rule decode_segment_encode)
              apply (rule payload_members)
             apply (rule payload_members)
            apply (rule seconds)
           apply (rule refl)
          apply (rule payload_members)
         apply (rule refl)
        apply (rule grant_members)
       apply (rule grant_members)
      apply (rule grant_members)
     apply (rule grant_members)
    apply (rule grant_members)
    done
qed

theorem credential_claims_witness:
  "LIVEKIT_API_SECRET example_env = Some ''secret''
   \<and> (\<exists>h p sg hdr claims grant.
        createToken example_env 1700000000999 ''alice'' ''room-A'' = Inr example_token
        \<and> split_on CHR ''.'' example_token = [h, p, sg]
        \<and> decode_segment h = Some hdr
        \<and> member hdr ''alg'' = Some (JString ''HS256'')
        \<and> decode_segment p = Some claims
        \<and> member claims ''exp'' = Some (JNumber 1700086400)
        \<and> member claims ''nbf'' = Some (JNumber 1700000000)
        \<and> member claims ''video'' = Some grant
        \<and> member grant ''room'' = Some (JString ''room-A'')
        \<and> member grant ''roomJoin'' = Some (JBool True)
        \<and> member grant ''canPublish'' = Some (JBool True)
        \<and> member grant ''canSubscribe'' = Some (JBool True)
        \<and> member grant ''canPublishData'' = Some (JBool True))"
proof -
  have secret: "LIVEKIT_API_SECRET example_env = Some ''secret''"
    by (simp add: example_env_def)
  from credential_claims [where env = example_env and secret = "''secret''"
      and date_now = 1700000000999 and ident = "''alice''" and roomName = "''room-A''",
      rule_format, OF secret]
  obtain tok h p sg hdr claims e n grant where
    tok: "createToken example_env 1700000000999 ''alice'' ''room-A'' = Inr tok"
    and segs: "split_on CHR ''.'' tok = [h, p, sg]"
    and hdr: "decode_segment h = Some hdr" "member hdr ''alg'' = Some (JString ''HS256'')"
    and claims: "decode_segment p = Some claims"
      "member claims ''exp'' = Some (JNumber e)" "member claims ''nbf'' = Some (JNumber n)"
    and times: "e - n = 86400" "n = 1700000000999 div 1000"
    and grant: "member claims ''video'' = Some grant"
      "member grant ''room'' = Some (JString ''room-A'')"
      "member grant ''roomJoin'' = Some (JBool True)"
      "member grant ''canPublish'' = Some (JBool True)"
      "member grant ''canSubscribe'' = Some (JBool True)"
      "member grant ''canPublishData'' = Some (JBool True)"
    by (elim exE conjE)
  from tok example_token_eq have same: "tok = example_token" by simp
  from times have n: "n = 1700000000" and e: "e = 1700086400" by simp_all
  show ?thesis
    apply (rule conjI [OF secret])
    apply (rule exI [of _ h])
    apply (rule exI [of _ p])
    apply (rule exI [of _ sg])
    apply (rule exI [of _ hdr])
    apply (rule exI [of _ claims])
    apply (rule exI [of _ grant])
    apply (intro conjI)
                apply (rule example_token_eq)
               apply (rule segs [unfolded same])
              apply (rule hdr)
             apply (rule hdr)
            apply (rule claims)
           apply (rule claims(2) [unfolded e])
          apply (rule claims(3) [unfolded n])
         apply (rule grant)
        apply (rule grant)
       apply (rule grant)
      apply (rule grant)
     apply (rule grant)
    apply (rule grant)
    done
qed

end
